theory Spec2Isabelle
  imports Complex_Main "HOL-Library.Monad_Syntax"
begin

section \<open>JavaScript strings\<close>

text \<open>
  A JavaScript string is a sequence of UTF-16 code units. The stream normaliser only
  tests code units for equality and membership in the white-space class, so a code unit
  is modelled as a natural number (below \<open>0x10000\<close> for every string produced here).
  \<open>js\<close> turns an ASCII literal of the source into its code units.
\<close>

type_synonym jstring = "nat list"

definition js :: "string \<Rightarrow> jstring" where
  "js s = map of_char s"

text \<open>
  \<open>String.prototype.trim\<close> removes WhiteSpace and LineTerminator code points from both
  ends (ECMAScript: TAB, VT, FF, SP, NBSP, ZWNBSP, the category Zs, LF, CR, LS, PS).
\<close>

definition isWhiteSpace :: "nat \<Rightarrow> bool" where
  "isWhiteSpace c =
     (c = 0x9 \<or> c = 0xA \<or> c = 0xB \<or> c = 0xC \<or> c = 0xD \<or> c = 0x20 \<or> c = 0xA0 \<or>
      c = 0x1680 \<or> (0x2000 \<le> c \<and> c \<le> 0x200A) \<or> c = 0x2028 \<or> c = 0x2029 \<or>
      c = 0x202F \<or> c = 0x205F \<or> c = 0x3000 \<or> c = 0xFEFF)"

definition trim :: "jstring \<Rightarrow> jstring" where
  "trim s = rev (dropWhile isWhiteSpace (rev (dropWhile isWhiteSpace s)))"

text \<open>\<open>s.split(sep)\<close> for a one-unit separator: the empty string gives one empty piece.\<close>

fun split :: "nat \<Rightarrow> jstring \<Rightarrow> jstring list" where
  "split sep [] = [[]]"
| "split sep (c # cs) =
     (if c = sep then [] # split sep cs
      else (case split sep cs of [] \<Rightarrow> [[c]] | l # ls \<Rightarrow> (c # l) # ls))"

fun startsWith :: "jstring \<Rightarrow> jstring \<Rightarrow> bool" where
  "startsWith s [] = True"
| "startsWith [] (p # ps) = False"
| "startsWith (c # cs) (p # ps) = (c = p \<and> startsWith cs ps)"

fun includes_str :: "jstring \<Rightarrow> jstring \<Rightarrow> bool" where
  "includes_str [] p = (p = [])"
| "includes_str (c # cs) p = (startsWith (c # cs) p \<or> includes_str cs p)"

definition slice :: "jstring \<Rightarrow> nat \<Rightarrow> jstring" where
  "slice s n = drop n s"

section \<open>TextDecoder: streaming UTF-8 decoding\<close>

text \<open>
  \<open>new TextDecoder()\<close> is the UTF-8 decoder of the WHATWG Encoding standard, with
  \<open>fatal = false\<close> and \<open>ignoreBOM = false\<close>. Its state is the UTF-8 decoder's five
  variables and the flag \<open>BOM seen\<close>. A byte of the \<open>Uint8Array\<close> is a \<open>char\<close> (HOL's
  8-bit character type), read as a number by \<open>of_char\<close>.
\<close>

type_synonym bytes = "char list"

record utf8_decoder =
  code_point :: nat
  bytes_seen :: nat
  bytes_needed :: nat
  lower_boundary :: nat
  upper_boundary :: nat

definition utf8_initial :: utf8_decoder where
  "utf8_initial =
     \<lparr>code_point = 0, bytes_seen = 0, bytes_needed = 0,
      lower_boundary = 0x80, upper_boundary = 0xBF\<rparr>"

text \<open>
  The handler's step 3 (no continuation byte is needed): an ASCII byte is emitted, a lead
  byte sets up the sequence (\<open>b mod 32\<close> is \<open>b & 0x1F\<close>, and so on), any other byte is an
  error, which the replacement error mode turns into U+FFFD.
\<close>

definition utf8_lead :: "utf8_decoder \<Rightarrow> nat \<Rightarrow> utf8_decoder \<times> nat list" where
  "utf8_lead d b =
     (if b \<le> 0x7F then (d, [b])
      else if 0xC2 \<le> b \<and> b \<le> 0xDF then
        (d\<lparr>bytes_needed := 1, code_point := b mod 32\<rparr>, [])
      else if 0xE0 \<le> b \<and> b \<le> 0xEF then
        (d\<lparr>lower_boundary := (if b = 0xE0 then 0xA0 else lower_boundary d),
           upper_boundary := (if b = 0xED then 0x9F else upper_boundary d),
           bytes_needed := 2, code_point := b mod 16\<rparr>, [])
      else if 0xF0 \<le> b \<and> b \<le> 0xF4 then
        (d\<lparr>lower_boundary := (if b = 0xF0 then 0x90 else lower_boundary d),
           upper_boundary := (if b = 0xF4 then 0x8F else upper_boundary d),
           bytes_needed := 3, code_point := b mod 8\<rparr>, [])
      else (d, [0xFFFD]))"

text \<open>
  One byte through the handler. A byte outside the boundaries resets the decoder, emits
  U+FFFD and is restored to the queue, that is, handled again from the initial state.
\<close>

definition utf8_handler :: "utf8_decoder \<Rightarrow> nat \<Rightarrow> utf8_decoder \<times> nat list" where
  "utf8_handler d b =
     (if bytes_needed d = 0 then utf8_lead d b
      else if b < lower_boundary d \<or> upper_boundary d < b then
        (case utf8_lead utf8_initial b of (d', out) \<Rightarrow> (d', 0xFFFD # out))
      else
        (let d1 = d\<lparr>lower_boundary := 0x80, upper_boundary := 0xBF,
                     code_point := code_point d * 64 + b mod 64,
                     bytes_seen := bytes_seen d + 1\<rparr>
         in if bytes_seen d1 \<noteq> bytes_needed d1 then (d1, [])
            else (utf8_initial, [code_point d1])))"

fun utf8_decode :: "utf8_decoder \<Rightarrow> bytes \<Rightarrow> utf8_decoder \<times> nat list" where
  "utf8_decode d [] = (d, [])"
| "utf8_decode d (b # bs) =
     (case utf8_handler d (of_char b) of (d1, out1) \<Rightarrow>
        (case utf8_decode d1 bs of (d2, out2) \<Rightarrow> (d2, out1 @ out2)))"

text \<open>Serialising the decoded code points drops one leading U+FEFF of the stream.\<close>

fun serialize :: "bool \<Rightarrow> nat list \<Rightarrow> bool \<times> nat list" where
  "serialize seen [] = (seen, [])"
| "serialize seen (c # cs) = (True, if \<not> seen \<and> c = 0xFEFF then cs else c # cs)"

definition utf16 :: "nat \<Rightarrow> jstring" where
  "utf16 cp =
     (if cp < 0x10000 then [cp]
      else [0xD800 + (cp - 0x10000) div 0x400, 0xDC00 + (cp - 0x10000) mod 0x400])"

record TextDecoder =
  decoder :: utf8_decoder
  BOM_seen :: bool

definition new_TextDecoder :: TextDecoder where
  "new_TextDecoder = \<lparr>decoder = utf8_initial, BOM_seen = False\<rparr>"

text \<open>
  \<open>decoder.decode(value, { stream: true })\<close>: the bytes run through the handler, the
  end of the chunk is not flushed, and an unfinished sequence stays in the state.
\<close>

definition decode_stream :: "TextDecoder \<Rightarrow> bytes \<Rightarrow> TextDecoder \<times> jstring" where
  "decode_stream td value =
     (case utf8_decode (decoder td) value of (d, cps) \<Rightarrow>
        (case serialize (BOM_seen td) cps of (seen, out) \<Rightarrow>
           (\<lparr>decoder = d, BOM_seen = seen\<rparr>, concat (map utf16 out))))"



definition utf8_encode_cp :: "nat \<Rightarrow> bytes" where
  "utf8_encode_cp cp =
     (if cp < 0x80 then [char_of cp]
      else if cp < 0x800 then [char_of (0xC0 + cp div 0x40), char_of (0x80 + cp mod 0x40)]
      else if cp < 0x10000 then
        [char_of (0xE0 + cp div 0x1000), char_of (0x80 + cp div 0x40 mod 0x40),
         char_of (0x80 + cp mod 0x40)]
      else
        [char_of (0xF0 + cp div 0x40000), char_of (0x80 + cp div 0x1000 mod 0x40),
         char_of (0x80 + cp div 0x40 mod 0x40), char_of (0x80 + cp mod 0x40)])"

definition utf8_encode :: "nat list \<Rightarrow> bytes" where
  "utf8_encode cps = concat (map utf8_encode_cp cps)"

section \<open>JavaScript values and JSON.parse\<close>

text \<open>
  The values \<open>JSON.parse\<close> builds, and \<open>undefined\<close>. An object keeps its members in
  source order; a later member of the same name overrides an earlier one. A number is
  held as the exact value of its literal (ECMAScript's MV), which binary64 rounds.
\<close>

datatype js =
    JUndefined
  | JNull
  | JBool bool
  | JNumber rat
  | JString jstring
  | JArray "js list"
  | JObject "(jstring \<times> js) list"

text \<open>
  \<open>JSON.parse\<close> follows the JSON grammar (ECMA-404): white space is SP, TAB, LF and CR;
  a string has no raw control character, and a backslash starts one of the escapes for
  the quote, the backslash, the slash, b, f, n, r, t or u with four hex digits;
  a number is \<open>-? (0 | [1-9][0-9]*) (. [0-9]+)? ([eE] [+-]? [0-9]+)?\<close>.
\<close>

definition is_ws :: "nat \<Rightarrow> bool" where
  "is_ws c = (c = 0x20 \<or> c = 0x9 \<or> c = 0xA \<or> c = 0xD)"

definition skip_ws :: "jstring \<Rightarrow> jstring" where
  "skip_ws s = dropWhile is_ws s"

definition is_digit :: "nat \<Rightarrow> bool" where
  "is_digit c = (0x30 \<le> c \<and> c \<le> 0x39)"

definition hex_digit :: "nat \<Rightarrow> nat option" where
  "hex_digit c =
     (if 0x30 \<le> c \<and> c \<le> 0x39 then Some (c - 0x30)
      else if 0x41 \<le> c \<and> c \<le> 0x46 then Some (c - 0x37)
      else if 0x61 \<le> c \<and> c \<le> 0x66 then Some (c - 0x57)
      else None)"

definition hex4 :: "jstring \<Rightarrow> nat option" where
  "hex4 s =
     (case map hex_digit (take 4 s) of
        [Some a, Some b, Some c, Some d] \<Rightarrow> Some (((a * 16 + b) * 16 + c) * 16 + d)
      | _ \<Rightarrow> None)"

definition escape :: "nat \<Rightarrow> nat option" where
  "escape e =
     (if e = 0x22 \<or> e = 0x5C \<or> e = 0x2F then Some e
      else if e = 0x62 then Some 0x8
      else if e = 0x66 then Some 0xC
      else if e = 0x6E then Some 0xA
      else if e = 0x72 then Some 0xD
      else if e = 0x74 then Some 0x9
      else None)"

fun json_string :: "jstring \<Rightarrow> jstring \<Rightarrow> (jstring \<times> jstring) option" where
  "json_string acc [] = None"
| "json_string acc [c] = (if c = 0x22 then Some (rev acc, []) else None)"
| "json_string acc (c # e # cs) =
     (if c = 0x22 then Some (rev acc, e # cs)
      else if c = 0x5C then
        (if e = 0x75 then
           (case hex4 cs of None \<Rightarrow> None | Some u \<Rightarrow> json_string (u # acc) (drop 4 cs))
         else (case escape e of None \<Rightarrow> None | Some x \<Rightarrow> json_string (x # acc) cs))
      else if c < 0x20 then None
      else json_string (c # acc) (e # cs))"

definition digits_value :: "jstring \<Rightarrow> nat" where
  "digits_value ds = foldl (\<lambda>a c. a * 10 + (c - 0x30)) 0 ds"

definition json_int :: "jstring \<Rightarrow> (jstring \<times> jstring) option" where
  "json_int s =
     (case s of
        [] \<Rightarrow> None
      | c # r \<Rightarrow>
          if c = 0x30 then Some ([c], r)
          else if is_digit c then Some (takeWhile is_digit s, dropWhile is_digit s)
          else None)"

definition json_frac :: "jstring \<Rightarrow> (jstring \<times> jstring) option" where
  "json_frac s =
     (case s of
        [] \<Rightarrow> Some ([], s)
      | c # r \<Rightarrow>
          if c = 0x2E then
            (if takeWhile is_digit r = [] then None
             else Some (takeWhile is_digit r, dropWhile is_digit r))
          else Some ([], s))"

definition json_exp :: "jstring \<Rightarrow> (int \<times> jstring) option" where
  "json_exp s =
     (case s of
        [] \<Rightarrow> Some (0, s)
      | c # r \<Rightarrow>
          if c = 0x65 \<or> c = 0x45 then
            (let neg = (case r of [] \<Rightarrow> False | h # _ \<Rightarrow> h = 0x2D);
                 r' = (case r of [] \<Rightarrow> r | h # t \<Rightarrow> if h = 0x2D \<or> h = 0x2B then t else r);
                 ds = takeWhile is_digit r'
             in if ds = [] then None
                else Some (if neg then - int (digits_value ds) else int (digits_value ds),
                           dropWhile is_digit r'))
          else Some (0, s))"

definition pow10 :: "int \<Rightarrow> rat" where
  "pow10 e = (if 0 \<le> e then 10 ^ nat e else 1 / 10 ^ nat (- e))"

definition json_number :: "jstring \<Rightarrow> (rat \<times> jstring) option" where
  "json_number s =
     (let neg = (case s of [] \<Rightarrow> False | h # _ \<Rightarrow> h = 0x2D);
          s1 = (if neg then tl s else s)
      in case json_int s1 of
           None \<Rightarrow> None
         | Some (ip, s2) \<Rightarrow>
             (case json_frac s2 of
                None \<Rightarrow> None
              | Some (fp, s3) \<Rightarrow>
                  (case json_exp s3 of
                     None \<Rightarrow> None
                   | Some (e, s4) \<Rightarrow>
                       Some ((if neg then - 1 else 1) * of_nat (digits_value (ip @ fp))
                               * pow10 (e - int (length fp)), s4))))"

definition json_scalar :: "jstring \<Rightarrow> (js \<times> jstring) option" where
  "json_scalar s =
     (if startsWith s (js ''true'') then Some (JBool True, drop 4 s)
      else if startsWith s (js ''false'') then Some (JBool False, drop 5 s)
      else if startsWith s (js ''null'') then Some (JNull, drop 4 s)
      else if startsWith s [0x22] then
        (case json_string [] (tl s) of None \<Rightarrow> None | Some (str, r) \<Rightarrow> Some (JString str, r))
      else (case json_number s of None \<Rightarrow> None | Some (q, r) \<Rightarrow> Some (JNumber q, r)))"

text \<open>A member name and its colon: \<open>ws string ws ':'\<close>.\<close>

definition json_key :: "jstring \<Rightarrow> (jstring \<times> jstring) option" where
  "json_key s =
     (case skip_ws s of
        [] \<Rightarrow> None
      | c # r \<Rightarrow>
          if c \<noteq> 0x22 then None
          else (case json_string [] r of
                  None \<Rightarrow> None
                | Some (k, r1) \<Rightarrow>
                    (case skip_ws r1 of
                       [] \<Rightarrow> None
                     | c1 # r2 \<Rightarrow> if c1 = 0x3A then Some (k, r2) else None)))"

text \<open>
  The parser proper runs over the text with an explicit stack of the arrays and objects
  that are still open. In mode \<open>Value\<close> it expects a value; in mode \<open>Got v\<close> it has just
  read \<open>v\<close> and expects a separator, a closing bracket or the end of the text. Every
  step consumes at least one code unit. \<open>None\<close> is the \<open>SyntaxError\<close>.
\<close>

datatype frame = InArray "js list" | InObject "(jstring \<times> js) list" jstring

datatype mode = Value | Got js

lemma length_skip_ws: "length (skip_ws s) \<le> length s"
  by (simp add: skip_ws_def length_dropWhile_le)

lemma json_string_shorter: "json_string acc s = Some (x, r) \<Longrightarrow> length r < length s"
proof (induction acc s rule: json_string.induct)
  case (3 acc c e cs)
  then show ?case
    by (auto split: if_splits option.splits simp: less_Suc_eq intro: less_le_trans)
qed (auto split: if_splits)

lemma json_int_shorter: "json_int s = Some (x, r) \<Longrightarrow> length r < length s"
  by (auto simp: json_int_def split: list.splits if_splits intro: le_imp_less_Suc length_dropWhile_le)

lemma json_frac_shorter: "json_frac s = Some (x, r) \<Longrightarrow> length r \<le> length s"
  by (auto simp: json_frac_def split: list.splits if_splits intro: le_SucI length_dropWhile_le)

lemma json_exp_shorter: "json_exp s = Some (x, r) \<Longrightarrow> length r \<le> length s"
  by (auto simp: json_exp_def Let_def split: list.splits if_splits
      intro: le_SucI length_dropWhile_le le_trans[OF length_dropWhile_le])

lemma json_number_shorter: "json_number s = Some (x, r) \<Longrightarrow> length r < length s"
proof -
  assume a: "json_number s = Some (x, r)"
  then obtain ip s2 fp s3 e where
    1: "json_int (if (case s of [] \<Rightarrow> False | h # _ \<Rightarrow> h = 0x2D) then tl s else s) = Some (ip, s2)"
    and 2: "json_frac s2 = Some (fp, s3)" and 3: "json_exp s3 = Some (e, r)"
    by (auto simp: json_number_def Let_def split: option.splits)
  have "length s2 < length s"
    using json_int_shorter[OF 1] by (auto split: if_splits list.splits)
  with json_frac_shorter[OF 2] json_exp_shorter[OF 3] show ?thesis by linarith
qed

lemma startsWith_length: "startsWith s p \<Longrightarrow> length p \<le> length s"
  by (induction s p rule: startsWith.induct) auto

lemma json_scalar_shorter: "json_scalar s = Some (v, r) \<Longrightarrow> length r < length s"
  using startsWith_length[of s "js ''true''"] startsWith_length[of s "js ''false''"]
    startsWith_length[of s "js ''null''"] startsWith_length[of s "[0x22]"]
  by (auto simp: json_scalar_def js_def split: if_splits option.splits
      dest!: json_string_shorter json_number_shorter)

lemma skip_ws_Cons: "skip_ws s = c # r \<Longrightarrow> length r < length s"
  using length_skip_ws[of s] by simp

lemma json_key_shorter: "json_key s = Some (k, r) \<Longrightarrow> length r < length s"
  by (auto simp: json_key_def split: list.splits if_splits option.splits
      dest!: skip_ws_Cons json_string_shorter)

function json_run :: "mode \<Rightarrow> frame list \<Rightarrow> jstring \<Rightarrow> js option" where
  "json_run Value st s =
     (case skip_ws s of
        [] \<Rightarrow> None
      | c # r \<Rightarrow>
          if c = 0x5B then
            (case skip_ws r of
               [] \<Rightarrow> None
             | c' # r' \<Rightarrow>
                 if c' = 0x5D then json_run (Got (JArray [])) st r'
                 else json_run Value (InArray [] # st) r)
          else if c = 0x7B then
            (case skip_ws r of
               [] \<Rightarrow> None
             | c' # r' \<Rightarrow>
                 if c' = 0x7D then json_run (Got (JObject [])) st r'
                 else (case json_key r of
                         None \<Rightarrow> None
                       | Some (k, r2) \<Rightarrow> json_run Value (InObject [] k # st) r2))
          else (case json_scalar (c # r) of
                  None \<Rightarrow> None
                | Some (v, r') \<Rightarrow> json_run (Got v) st r'))"
| "json_run (Got v) st s =
     (case skip_ws s of
        [] \<Rightarrow> (if st = [] then Some v else None)
      | c # r \<Rightarrow>
          (case st of
             [] \<Rightarrow> None
           | InArray acc # st' \<Rightarrow>
               if c = 0x2C then json_run Value (InArray (v # acc) # st') r
               else if c = 0x5D then json_run (Got (JArray (rev (v # acc)))) st' r
               else None
           | InObject acc k # st' \<Rightarrow>
               if c = 0x2C then
                 (case json_key r of
                    None \<Rightarrow> None
                  | Some (k', r2) \<Rightarrow> json_run Value (InObject ((k, v) # acc) k' # st') r2)
               else if c = 0x7D then json_run (Got (JObject (rev ((k, v) # acc)))) st' r
               else None))"
  by pat_completeness auto
termination
proof (relation "measure (\<lambda>(m, st, s). length s)")
qed (auto dest!: skip_ws_Cons json_key_shorter json_scalar_shorter)

definition JSON_parse :: "jstring \<Rightarrow> js option" where
  "JSON_parse text = json_run Value [] text"

text \<open>
  \<open>ToBoolean\<close>. A number literal denotes zero in binary64 exactly when its magnitude is
  at most 2 to the power -1075, half the least subnormal (a tie goes to the even
  significand, zero).
\<close>

fun truthy :: "js \<Rightarrow> bool" where
  "truthy JUndefined = False"
| "truthy JNull = False"
| "truthy (JBool b) = b"
| "truthy (JNumber q) = (1 / 2 ^ 1075 < \<bar>q\<bar>)"
| "truthy (JString s) = (s \<noteq> [])"
| "truthy (JArray xs) = True"
| "truthy (JObject kvs) = True"

text \<open>
  Member access \<open>v.k\<close> and \<open>v[k]\<close>, for the names this program reads (\<open>type\<close>, \<open>delta\<close>,
  \<open>text\<close>, \<open>choices\<close>, \<open>0\<close>, \<open>content\<close>, \<open>message\<close>, \<open>error\<close>, \<open>id\<close>, \<open>result\<close>, \<open>json\<close>), none of
  which is a built-in property of a string, an array, a number or a boolean. On
  \<open>undefined\<close> and \<open>null\<close> the access throws a \<open>TypeError\<close>: \<open>None\<close>.
\<close>

definition own_property :: "(jstring \<times> js) list \<Rightarrow> jstring \<Rightarrow> js" where
  "own_property kvs k = (case map_of (rev kvs) k of None \<Rightarrow> JUndefined | Some v \<Rightarrow> v)"

definition array_index :: "jstring \<Rightarrow> nat option" where
  "array_index k =
     (if k \<noteq> [] \<and> list_all is_digit k \<and> (length k = 1 \<or> hd k \<noteq> 0x30)
      then Some (digits_value k) else None)"

fun js_get :: "js \<Rightarrow> jstring \<Rightarrow> js option" where
  "js_get JUndefined k = None"
| "js_get JNull k = None"
| "js_get (JBool b) k = Some JUndefined"
| "js_get (JNumber q) k = Some JUndefined"
| "js_get (JString s) k =
     Some (case array_index k of
             None \<Rightarrow> JUndefined
           | Some i \<Rightarrow> if i < length s then JString [s ! i] else JUndefined)"
| "js_get (JArray xs) k =
     Some (case array_index k of
             None \<Rightarrow> JUndefined
           | Some i \<Rightarrow> if i < length xs then xs ! i else JUndefined)"
| "js_get (JObject kvs) k = Some (own_property kvs k)"

text \<open>Optional chaining \<open>v?.k\<close>: \<open>undefined\<close> where \<open>v\<close> is \<open>undefined\<close> or \<open>null\<close>.\<close>

definition js_get_opt :: "js \<Rightarrow> jstring \<Rightarrow> js" where
  "js_get_opt v k = (case js_get v k of None \<Rightarrow> JUndefined | Some x \<Rightarrow> x)"

section \<open>streamChatResponse\<close>

text \<open>
  The chain of \<open>if\<close>s after \<open>JSON.parse\<close> (apiService.ts, lines 329 to 339): the fragments
  the line yields, or \<open>None\<close> when an access throws inside the \<open>try\<close>.
  \<^verbatim>\<open>
  if (data.type === 'content_block_delta' && data.delta?.type === 'text_delta') {
    yield data.delta.text;
  } else if (data.choices && data.choices[0]?.delta?.content) {
    yield data.choices[0].delta.content;
  } else if (data.choices && data.choices[0]?.message?.content) {
    yield data.choices[0].message.content;
  }
  \<close>
\<close>

definition choice_content :: "js \<Rightarrow> jstring \<Rightarrow> js option" where
  \<comment> \<open>\<open>data.choices && data.choices[0]?.part?.content\<close>\<close>
  "choice_content data part = do {
     choices \<leftarrow> js_get data (js ''choices'');
     if truthy choices then do {
       c0 \<leftarrow> js_get choices (js ''0'');
       Some (js_get_opt (js_get_opt c0 part) (js ''content''))
     } else Some choices
   }"

definition yield_choice_content :: "js \<Rightarrow> jstring \<Rightarrow> js option" where
  \<comment> \<open>\<open>data.choices[0].part.content\<close>\<close>
  "yield_choice_content data part = do {
     choices \<leftarrow> js_get data (js ''choices'');
     c0 \<leftarrow> js_get choices (js ''0'');
     p \<leftarrow> js_get c0 part;
     js_get p (js ''content'')
   }"

definition extractFragment :: "js \<Rightarrow> js list option" where
  "extractFragment data = do {
     ty \<leftarrow> js_get data (js ''type'');
     isTextDelta \<leftarrow>
       (if ty = JString (js ''content_block_delta'') then do {
          delta \<leftarrow> js_get data (js ''delta'');
          Some (js_get_opt delta (js ''type'') = JString (js ''text_delta''))
        } else Some False);
     if isTextDelta then do {
       delta \<leftarrow> js_get data (js ''delta'');
       text \<leftarrow> js_get delta (js ''text'');
       Some [text]
     } else do {
       deltaContent \<leftarrow> choice_content data (js ''delta'');
       if truthy deltaContent then do {
         c \<leftarrow> yield_choice_content data (js ''delta'');
         Some [c]
       } else do {
         messageContent \<leftarrow> choice_content data (js ''message'');
         if truthy messageContent then do {
           c \<leftarrow> yield_choice_content data (js ''message'');
           Some [c]
         } else Some []
       }
     }
   }"

text \<open>
  The body of \<open>for (const line of lines)\<close> (lines 310 to 343): the fragments one line
  yields. Both \<open>catch\<close> cases, the \<open>SyntaxError\<close> of \<open>JSON.parse\<close> and a \<open>TypeError\<close> of the
  accesses, skip the line.
\<close>

definition streamLine :: "jstring \<Rightarrow> js list" where
  "streamLine line =
     (if includes_str line (js ''event: ping'') then []
      else if startsWith line (js ''event:'') then []
      else if \<not> startsWith line (js ''data:'') then []
      else
        (let trimmedLine = (if startsWith line (js ''data: '') then slice line 6 else line)
         in if trim trimmedLine = [] then []
            else (case JSON_parse trimmedLine of
                    None \<Rightarrow> []
                  | Some data \<Rightarrow>
                      (case extractFragment data of None \<Rightarrow> [] | Some fragments \<Rightarrow> fragments))))"

text \<open>One decoded chunk (lines 305 to 344): split at line feeds, filter, run the lines.\<close>

definition chunkLines :: "jstring \<Rightarrow> jstring list" where
  "chunkLines chunk =
     filter (\<lambda>line. trim line \<noteq> [] \<and> trim line \<noteq> js ''data: [DONE]'') (split 0xA chunk)"

definition streamChunk :: "jstring \<Rightarrow> js list" where
  "streamChunk chunk = concat (map streamLine (chunkLines chunk))"

text \<open>
  A \<open>ReadableStream\<close> of \<open>Uint8Array\<close>, as its one reader sees it: the values that
  \<open>reader.read()\<close> delivers in order, and how the stream ends after them, by \<open>done\<close> (it
  closes) or by a rejected read (it errors). A stream that never ends has no fragment
  sequence that ends and is outside this model.
\<close>

record 'e readable =
  chunks :: "bytes list"
  failure :: "'e option"

text \<open>
  The \<open>while (true)\<close> loop over \<open>reader.read()\<close> (lines 295 to 348); the one decoder is
  carried from read to read. The result lists the fragments in the order the generator
  yields them.
\<close>

fun streamReads :: "TextDecoder \<Rightarrow> bytes list \<Rightarrow> js list" where
  "streamReads td [] = []"
| "streamReads td (value # rest) =
     (case decode_stream td value of
        (td', chunk) \<Rightarrow> streamChunk chunk @ streamReads td' rest)"

text \<open>
  The generator: the fragments it yields, and how it ends, by returning (\<open>None\<close>) or by
  throwing the error of the rejected read, which no \<open>catch\<close> of the function encloses.
\<close>

definition streamChatResponse :: "'e readable \<Rightarrow> js list \<times> 'e option" where
  "streamChatResponse readable = (streamReads new_TextDecoder (chunks readable), failure readable)"

text \<open>
  The function is an \<^verbatim>\<open>async function*\<close>: calling it gives a generator object, and the
  body runs only as the caller asks for the next fragment. Each call of \<open>next()\<close> ends in
  one of three ways: the body reaches a \<open>yield\<close> (the fragment is delivered, \<open>done\<close> is
  false), the body returns (\<open>done\<close> is true), or it throws (the promise is rejected).
\<close>

datatype 'e iterator_result = Yield js | Return | Throw 'e

text \<open>
  The state of the suspended body: the decoder, the fragments that the lines of the
  current read have still to yield, the reader with the reads not yet taken from the
  stream, and whether the body has finished. A finished generator answers every further
  \<open>next()\<close> with \<open>done\<close>.
\<close>

record 'e generator =
  text_decoder :: TextDecoder
  pending :: "js list"
  reader :: "'e readable"
  completed :: bool

definition generator_of :: "'e readable \<Rightarrow> 'e generator" where
  "generator_of readable =
     \<lparr>text_decoder = new_TextDecoder, pending = [], reader = readable, completed = False\<rparr>"

text \<open>
  The loop from one \<open>yield\<close> to the next: reads are taken and decoded until the lines of a
  read yield a fragment, or the stream has no further read.
\<close>

fun advance :: "TextDecoder \<Rightarrow> bytes list \<Rightarrow> TextDecoder \<times> js list \<times> bytes list" where
  "advance td [] = (td, [], [])"
| "advance td (bs # rest) =
     (case decode_stream td bs of
        (td', chunk) \<Rightarrow>
          (case streamChunk chunk of
             [] \<Rightarrow> advance td' rest
           | fragment # fragments \<Rightarrow> (td', fragment # fragments, rest)))"

text \<open>
  After the last read the stream either closes (\<open>done\<close>, line 298: the loop breaks and the
  body returns) or rejects the read (the error leaves the body through \<open>finally\<close>).
\<close>

definition end_of_stream :: "'e option \<Rightarrow> 'e iterator_result" where
  "end_of_stream f = (case f of None \<Rightarrow> Return | Some e \<Rightarrow> Throw e)"

definition generator_next :: "'e generator \<Rightarrow> 'e iterator_result \<times> 'e generator" where
  "generator_next g =
     (if completed g then (Return, g)
      else case pending g of
          fragment # fragments \<Rightarrow> (Yield fragment, g\<lparr>pending := fragments\<rparr>)
        | [] \<Rightarrow>
            (case advance (text_decoder g) (chunks (reader g)) of
               (td, fragment # fragments, rest) \<Rightarrow>
                 (Yield fragment,
                  g\<lparr>text_decoder := td, pending := fragments,
                    reader := (reader g)\<lparr>chunks := rest\<rparr>\<rparr>)
             | (td, [], rest) \<Rightarrow>
                 (end_of_stream (failure (reader g)),
                  g\<lparr>text_decoder := td, reader := (reader g)\<lparr>chunks := rest\<rparr>,
                    completed := True\<rparr>)))"

text \<open>A consumer that calls \<open>next()\<close> \<open>n\<close> times: the results in order, and the generator left.\<close>

fun consume :: "nat \<Rightarrow> 'e generator \<Rightarrow> 'e iterator_result list \<times> 'e generator" where
  "consume 0 g = ([], g)"
| "consume (Suc n) g =
     (case generator_next g of
        (result, g') \<Rightarrow> (case consume n g' of (results, g'') \<Rightarrow> (result # results, g'')))"

section \<open>The request dispatcher\<close>

subsection \<open>Requests, providers and configuration\<close>

text \<open>
  Modelled from the spec: the type \<open>Provider\<close> of the module \<open>@/types\<close>, which apiService.ts
  and utils.ts import: the fixed enumeration groq, claude, openai, openrouter, flowise,
  neura, google (the cases of the two \<open>switch\<close>es of utils.ts).
\<close>

datatype Provider = Groq | Claude | OpenAI | OpenRouter | Flowise | Neura | Google

text \<open>
  Modelled from the spec: the type \<open>Message\<close> of \<open>@/types\<close>, a role tag, one of system, user
  and assistant, and textual content.
\<close>

datatype Role = System | User | Assistant

record Message =
  role :: Role
  content :: jstring

text \<open>
  Modelled from the spec: the type \<open>ChatRequest\<close> of \<open>@/types\<close>, an ordered sequence of
  Message, a model identifier, a temperature and a streaming flag. The fourth type of the
  module, \<open>ChatResponse\<close>, is the plain object the code builds or receives: a \<open>js\<close> value.
\<close>

record ChatRequest =
  messages :: "Message list"
  model :: jstring
  temperature :: rat
  stream :: bool

text \<open>The request as the object \<open>JSON.stringify(chatRequest)\<close> writes out.\<close>

definition role_name :: "Role \<Rightarrow> jstring" where
  "role_name r =
     (case r of System \<Rightarrow> js ''system'' | User \<Rightarrow> js ''user'' | Assistant \<Rightarrow> js ''assistant'')"

definition message_js :: "Message \<Rightarrow> js" where
  "message_js m =
     JObject [(js ''role'', JString (role_name (role m))), (js ''content'', JString (content m))]"

definition request_js :: "ChatRequest \<Rightarrow> js" where
  "request_js r =
     JObject [(js ''messages'', JArray (map message_js (messages r))),
              (js ''model'', JString (model r)),
              (js ''temperature'', JNumber (temperature r)),
              (js ''stream'', JBool (stream r))]"

text \<open>
  \<open>import.meta.env\<close>: a variable is a string or is absent. \<open>env_or env x d\<close> is
  \<open>import.meta.env.x || d\<close>.
\<close>

type_synonym env = "string \<Rightarrow> jstring option"

definition env_or :: "env \<Rightarrow> string \<Rightarrow> jstring \<Rightarrow> jstring" where
  "env_or env x d = (case env x of None \<Rightarrow> d | Some v \<Rightarrow> if v = [] then d else v)"

definition getApiUrlForProvider :: "env \<Rightarrow> Provider \<Rightarrow> jstring" where
  "getApiUrlForProvider env provider =
     (case provider of
        Groq \<Rightarrow> env_or env ''VITE_GROQ_API_URL'' (js ''https://api.groq.com/openai/v1/chat/completions'')
      | Claude \<Rightarrow> env_or env ''VITE_CLAUDE_API_URL'' (js ''/api/claude-proxy'')
      | OpenAI \<Rightarrow> env_or env ''VITE_OPENAI_API_URL'' (js ''https://api.openai.com/v1/chat/completions'')
      | OpenRouter \<Rightarrow>
          env_or env ''VITE_OPENROUTER_API_URL'' (js ''https://openrouter.ai/api/v1/chat/completions'')
      | Flowise \<Rightarrow> env_or env ''VITE_FLOWISE_API_URL'' (js ''http://localhost:3000/api/v1/prediction'')
      | Neura \<Rightarrow>
          env_or env ''VITE_NEURA_ROUTER_API_URL''
            (js ''https://api.meetneura.ai/v1/chat/completions/router'')
      | Google \<Rightarrow> env_or env ''VITE_GOOGLE_API_URL'' (js ''https://generativelanguage.googleapis.com''))"

definition getApiKeyForProvider :: "env \<Rightarrow> Provider \<Rightarrow> jstring" where
  "getApiKeyForProvider env provider =
     (case provider of
        Groq \<Rightarrow> env_or env ''VITE_GROQ_API_KEY'' []
      | Claude \<Rightarrow> env_or env ''VITE_CLAUDE_API_KEY'' []
      | OpenAI \<Rightarrow> env_or env ''VITE_OPENAI_API_KEY'' []
      | OpenRouter \<Rightarrow> env_or env ''VITE_OPENROUTER_API_KEY'' []
      | Flowise \<Rightarrow> env_or env ''VITE_FLOWISE_API_KEY'' []
      | Neura \<Rightarrow> env_or env ''VITE_NEURA_ROUTER_API_KEY'' []
      | Google \<Rightarrow> env_or env ''VITE_GOOGLE_API_KEY'' [])"

subsection \<open>Errors, the network and the Flowise SDK\<close>

text \<open>
  The errors the dispatcher throws, under the names of the spec, each for one
  \<open>throw new Error(...)\<close> of the source:
  \<^item> \<open>MissingCredential\<close>: \<^verbatim>\<open>API key for ${provider} is not set. ...\<close>
  \<^item> \<open>MissingConfiguration\<close>: \<^verbatim>\<open>Flowise API URL is not set. ...\<close> and
    \<^verbatim>\<open>Flowise Chatflow ID is not set. ...\<close>, told apart by the message;
  \<^item> \<open>EmptyRequest\<close>: \<^verbatim>\<open>No valid messages found for Claude API request. ...\<close>
  \<^item> \<open>NoUserMessage\<close>: \<^verbatim>\<open>No user message found in the request\<close>
  \<^item> \<open>TransportFailure\<close>: \<^verbatim>\<open>... request failed with status ${response.status}: ${...}\<close>, with
    the status and the value the message is built from;
  \<^item> \<open>MisconfiguredEndpoint\<close>: \<^verbatim>\<open>Received HTML instead of JSON. ...\<close>
  \<^item> \<open>Rejected\<close>: an error of \<open>fetch\<close>, \<open>response.json()\<close> or the SDK, rethrown, with its
    message; \<open>TypeError\<close>: a member access on \<open>undefined\<close> or \<open>null\<close>.
\<close>

datatype error =
    MissingCredential Provider
  | MissingConfiguration jstring
  | EmptyRequest
  | NoUserMessage
  | TransportFailure nat js
  | MisconfiguredEndpoint
  | Rejected jstring
  | TypeError

record http_request =
  url :: jstring
  headers :: "(jstring \<times> jstring) list"
  body :: js

text \<open>
  A \<open>Response\<close>: \<open>json\<close> is what \<open>response.json()\<close> resolves to, or the message of its
  rejection; \<open>stream_body\<close> is \<open>response.body\<close>.
\<close>

record http_response =
  ok :: bool
  status :: nat
  statusText :: jstring
  json :: "jstring + js"
  stream_body :: "error readable"

datatype MessageType = apiMessage | userMessage

record history_entry =
  h_message :: jstring
  h_type :: MessageType
  h_role :: MessageType
  h_content :: jstring

text \<open>
  The argument of \<open>client.createPrediction\<close>, with the configuration of the client it is
  called on. \<open>history\<close> and \<open>client_apiKey\<close> are \<open>undefined\<close> when \<open>None\<close>; \<open>streaming\<close> is
  \<open>true\<close> or left out.
\<close>

record prediction =
  client_baseUrl :: jstring
  client_apiKey :: "jstring option"
  chatflowId :: jstring
  question :: jstring
  history :: "history_entry list option"
  overrideConfig_temperature :: rat
  streaming :: bool

text \<open>
  What lies outside the program, as parameters: \<open>fetch\<close> (the response, or the message of
  the rejection); the SDK's \<open>createPrediction\<close>, which without \<open>streaming\<close> resolves to a
  value or rejects, and with \<open>streaming\<close> gives an asynchronous generator, here the events
  \<open>{event, data}\<close> it produces and the message of the error that ends it, if one does;
  \<open>JSON.stringify\<close> on the values the program passes to it, none of which is \<open>undefined\<close>;
  and the string \<open>generateId()\<close> draws from \<open>Math.random()\<close>.
\<close>

record platform =
  fetch :: "http_request \<Rightarrow> jstring + http_response"
  createPrediction :: "prediction \<Rightarrow> jstring + js"
  createPredictionStream :: "prediction \<Rightarrow> (jstring \<times> jstring) list \<times> jstring option"
  JSON_stringify :: "js \<Rightarrow> jstring"
  generateId :: jstring

text \<open>What a call sends out, in order.\<close>

datatype transmission = Fetch http_request | Prediction prediction

datatype chat_result = ChatResponse js | ByteStream "error readable"

type_synonym outcome = "(error + chat_result) \<times> transmission list"

text \<open>\<open>a || b\<close> on values.\<close>

definition js_or :: "js \<Rightarrow> js \<Rightarrow> js" where
  "js_or a b = (if truthy a then a else b)"

text \<open>
  \<open>TextEncoder.encode\<close>: the string's code points (a surrogate pair is one code point, a
  lone surrogate becomes U+FFFD) in UTF-8.
\<close>

fun code_points :: "jstring \<Rightarrow> nat list" where
  "code_points [] = []"
| "code_points [c] = [if 0xD800 \<le> c \<and> c < 0xE000 then 0xFFFD else c]"
| "code_points (c # d # cs) =
     (if 0xD800 \<le> c \<and> c < 0xDC00 \<and> 0xDC00 \<le> d \<and> d < 0xE000
      then (0x10000 + (c - 0xD800) * 0x400 + (d - 0xDC00)) # code_points cs
      else (if 0xD800 \<le> c \<and> c < 0xE000 then 0xFFFD else c) # code_points (d # cs))"

definition TextEncoder_encode :: "jstring \<Rightarrow> bytes" where
  "TextEncoder_encode s = utf8_encode (code_points s)"

subsection \<open>The adapters\<close>

text \<open>
  \<^verbatim>\<open>const errorData = await response.json().catch(() => null);\<close> and then
  \<^verbatim>\<open>errorData?.error?.message || response.statusText\<close>.
\<close>

definition error_detail :: "http_response \<Rightarrow> js" where
  "error_detail response =
     (let errorData = (case json response of Inl e \<Rightarrow> JNull | Inr d \<Rightarrow> d)
      in js_or (js_get_opt (js_get_opt errorData (js ''error'')) (js ''message''))
               (JString (statusText response)))"

text \<open>
  sendClaudeRequest, lines 43 to 48: the messages that are not empty after trimming, with
  the role \<open>system\<close> turned into \<open>user\<close>.
\<close>

definition anthropicMessages :: "ChatRequest \<Rightarrow> Message list" where
  "anthropicMessages chatRequest =
     map (\<lambda>msg. \<lparr>role = (if role msg = System then User else role msg), content = content msg\<rparr>)
       (filter (\<lambda>msg. content msg \<noteq> [] \<and> trim (content msg) \<noteq> []) (messages chatRequest))"

definition claudeRequestBody :: "ChatRequest \<Rightarrow> js" where
  "claudeRequestBody chatRequest =
     JObject [(js ''model'', JString (model chatRequest)),
              (js ''max_tokens'', JNumber (if stream chatRequest then 16000 else 4096)),
              (js ''messages'', JArray (map message_js (anthropicMessages chatRequest))),
              (js ''stream'', JBool (stream chatRequest))]"

definition assistant_response :: "js \<Rightarrow> js \<Rightarrow> js" where
  \<comment> \<open>the object literal both adapters return as a ChatResponse\<close>
  "assistant_response ident text =
     JObject [(js ''id'', ident),
              (js ''choices'', JArray [JObject
                 [(js ''index'', JNumber 0),
                  (js ''message'', JObject [(js ''role'', JString (js ''assistant'')),
                                            (js ''content'', text)]),
                  (js ''finish_reason'', JString (js ''stop''))]])]"

definition sendClaudeRequest :: "platform \<Rightarrow> jstring \<Rightarrow> jstring \<Rightarrow> ChatRequest \<Rightarrow> outcome" where
  "sendClaudeRequest pf apiUrl apiKey chatRequest =
     (if length (anthropicMessages chatRequest) = 0 then (Inl EmptyRequest, [])
      else
        (let request =
               \<lparr>url = js ''/api/proxy/claude'',
                headers = [(js ''Content-Type'', js ''application/json''), (js ''x-api-key'', apiKey)],
                body = claudeRequestBody chatRequest\<rparr>
         in case fetch pf request of
              Inl e \<Rightarrow> (Inl (Rejected e), [Fetch request])
            | Inr response \<Rightarrow>
                if \<not> ok response then
                  (Inl (TransportFailure (status response) (error_detail response)), [Fetch request])
                else if stream chatRequest then
                  (Inr (ByteStream (stream_body response)), [Fetch request])
                else
                  (case json response of
                     Inl e \<Rightarrow> (Inl (Rejected e), [Fetch request])
                   | Inr data \<Rightarrow>
                       (case js_get data (js ''id'') of
                          None \<Rightarrow> (Inl TypeError, [Fetch request])
                        | Some ident \<Rightarrow>
                            (Inr (ChatResponse (assistant_response ident
                               (js_or (js_get_opt (js_get_opt (js_get_opt data (js ''content''))
                                          (js ''0'')) (js ''text''))
                                      (JString [])))),
                             [Fetch request])))))"

definition sendOpenAICompatibleRequest ::
    "platform \<Rightarrow> jstring \<Rightarrow> jstring \<Rightarrow> ChatRequest \<Rightarrow> outcome" where
  "sendOpenAICompatibleRequest pf apiUrl apiKey chatRequest =
     (let request =
            \<lparr>url = apiUrl,
             headers = [(js ''Content-Type'', js ''application/json''),
                        (js ''Authorization'', js ''Bearer '' @ apiKey)],
             body = request_js chatRequest\<rparr>
      in case fetch pf request of
           Inl e \<Rightarrow> (Inl (Rejected e), [Fetch request])
         | Inr response \<Rightarrow>
             if \<not> ok response then
               (Inl (TransportFailure (status response) (error_detail response)), [Fetch request])
             else if stream chatRequest then
               (Inr (ByteStream (stream_body response)), [Fetch request])
             else
               (case json response of
                  Inl e \<Rightarrow> (Inl (Rejected e), [Fetch request])
                | Inr data \<Rightarrow> (Inr (ChatResponse data), [Fetch request])))"

text \<open>\<^verbatim>\<open>apiUrl.replace(/\/api\/v1\/prediction\/?$/, '')\<close>: the suffix is cut off.\<close>

definition endsWith :: "jstring \<Rightarrow> jstring \<Rightarrow> bool" where
  "endsWith s suffix = startsWith (rev s) (rev suffix)"

definition flowiseBaseUrl :: "jstring \<Rightarrow> jstring" where
  "flowiseBaseUrl apiUrl =
     (if endsWith apiUrl (js ''/api/v1/prediction/'') then take (length apiUrl - 19) apiUrl
      else if endsWith apiUrl (js ''/api/v1/prediction'') then take (length apiUrl - 18) apiUrl
      else apiUrl)"

text \<open>Lines 183 to 190: the history, given the last user message.\<close>

definition flowiseHistory :: "ChatRequest \<Rightarrow> Message \<Rightarrow> history_entry list" where
  "flowiseHistory chatRequest lastUserMessage =
     map (\<lambda>msg.
            \<lparr>h_message = content msg,
             h_type = (if role msg = Assistant then apiMessage else userMessage),
             h_role = (if role msg = Assistant then apiMessage else userMessage),
             h_content = content msg\<rparr>)
       (filter (\<lambda>msg. role msg \<noteq> System \<and>
                       \<not> (role msg = User \<and> content msg = content lastUserMessage))
          (messages chatRequest))"

text \<open>Lines 250 to 259: the content of a response; \<open>None\<close> is the \<open>TypeError\<close> on \<open>null\<close>.\<close>

definition flowiseContent :: "platform \<Rightarrow> js \<Rightarrow> js option" where
  "flowiseContent pf response =
     (case response of
        JString s \<Rightarrow> Some response
      | _ \<Rightarrow> do {
          text \<leftarrow> js_get response (js ''text'');
          if truthy text then Some text
          else do {
            result \<leftarrow> js_get response (js ''result'');
            if truthy result then Some result
            else do {
              j \<leftarrow> js_get response (js ''json'');
              if truthy j then Some (JString (JSON_stringify pf j)) else Some (JString [])
            }
          }
        })"

text \<open>
  Lines 213 to 223: one token of the SDK as a server-sent event in the OpenAI format. The
  stream of lines 196 to 235 is given as a reader that keeps up with the producer sees it:
  every token event that has data as one chunk, then the sentinel chunk and \<open>done\<close>, or,
  where the SDK's generator throws, the failure.
\<close>

definition formattedChunk :: "jstring \<Rightarrow> js" where
  "formattedChunk data =
     JObject [(js ''choices'', JArray [JObject
                [(js ''index'', JNumber 0),
                 (js ''delta'', JObject [(js ''content'', JString data)]),
                 (js ''finish_reason'', JNull)]])]"

definition flowiseStream ::
    "platform \<Rightarrow> (jstring \<times> jstring) list \<times> jstring option \<Rightarrow> error readable" where
  "flowiseStream pf generator =
     (case generator of
        (events, err) \<Rightarrow>
          \<lparr>chunks =
             map (\<lambda>(event, data).
                    TextEncoder_encode
                      (js ''data: '' @ JSON_stringify pf (formattedChunk data) @ [0xA, 0xA]))
               (filter (\<lambda>(event, data). event = js ''token'' \<and> data \<noteq> []) events)
             @ (case err of
                  None \<Rightarrow> [TextEncoder_encode (js ''data: [DONE]'' @ [0xA, 0xA])]
                | Some e \<Rightarrow> []),
           failure = map_option Rejected err\<rparr>)"

text \<open>
  The client and the argument of \<open>createPrediction\<close> (lines 171 to 174, 199 to 207 and 240
  to 247), the same in both modes but for \<open>streaming\<close>.
\<close>

definition flowisePrediction ::
    "jstring \<Rightarrow> jstring \<Rightarrow> jstring \<Rightarrow> ChatRequest \<Rightarrow> Message \<Rightarrow> prediction" where
  "flowisePrediction apiUrl apiKey flowId chatRequest lastUserMessage =
     (let history = flowiseHistory chatRequest lastUserMessage
      in \<lparr>client_baseUrl = flowiseBaseUrl apiUrl,
          client_apiKey = (if apiKey = [] then None else Some apiKey),
          chatflowId = flowId,
          question = content lastUserMessage,
          history = (if length history > 0 then Some history else None),
          overrideConfig_temperature = temperature chatRequest,
          streaming = stream chatRequest\<rparr>)"

definition sendFlowiseRequest ::
    "platform \<Rightarrow> env \<Rightarrow> jstring \<Rightarrow> jstring \<Rightarrow> ChatRequest \<Rightarrow> outcome" where
  "sendFlowiseRequest pf env apiUrl apiKey chatRequest =
     (if apiUrl = [] then
        (Inl (MissingConfiguration
                (js ''Flowise API URL is not set. Please check your environment variables.'')), [])
      else
        (let flowId = env_or env ''VITE_FLOWISE_CHATFLOW_ID'' []
         in if flowId = [] then
              (Inl (MissingConfiguration
                 (js ''Flowise Chatflow ID is not set. Please check your environment variables.'')),
               [])
            else
              (let users = filter (\<lambda>msg. role msg = User) (messages chatRequest)
               in if users = [] then (Inl NoUserMessage, [])
                  else
                    (let lastUserMessage = last users;
                         request = flowisePrediction apiUrl apiKey flowId chatRequest lastUserMessage
                     in if stream chatRequest then
                          (Inr (ByteStream (flowiseStream pf (createPredictionStream pf request))),
                           [Prediction request])
                        else
                          (case createPrediction pf request of
                             Inl message \<Rightarrow>
                               (Inl (if message \<noteq> [] \<and>
                                        (includes_str message (js ''<!DOCTYPE html>'') \<or>
                                         includes_str message (js ''<html''))
                                     then MisconfiguredEndpoint else Rejected message),
                                [Prediction request])
                           | Inr response \<Rightarrow>
                               (case flowiseContent pf response of
                                  None \<Rightarrow> (Inl TypeError, [Prediction request])
                                | Some text \<Rightarrow>
                                    (Inr (ChatResponse
                                            (assistant_response (JString (generateId pf)) text)),
                                     [Prediction request])))))))"

definition sendChatRequest :: "platform \<Rightarrow> env \<Rightarrow> Provider \<Rightarrow> ChatRequest \<Rightarrow> outcome" where
  "sendChatRequest pf env provider chatRequest =
     (let apiKey = getApiKeyForProvider env provider;
          apiUrl = getApiUrlForProvider env provider
      in if apiKey = [] \<and> provider \<noteq> Flowise then (Inl (MissingCredential provider), [])
         else if provider = Flowise then sendFlowiseRequest pf env apiUrl apiKey chatRequest
         else if provider = Claude then sendClaudeRequest pf apiUrl apiKey chatRequest
         else sendOpenAICompatibleRequest pf apiUrl apiKey chatRequest)"

section \<open>Definitions the claims are stated with\<close>

text \<open>
  The precedence of the spec, in its words: (a) the content-delta shape of Anthropic
  (\<open>type\<close> is \<open>content_block_delta\<close> and the nested delta is a text delta) yields the
  delta's text; (b) else an incremental delta with content, \<open>choices[0].delta.content\<close>,
  yields that content; (c) else a message content, \<open>choices[0].message.content\<close>, yields
  that; (d) else nothing. \<open>at_path\<close> reads a value along member names and is \<open>undefined\<close>
  where the path leaves the value; a value "carries" a content when the content is truthy.
\<close>

definition at_path :: "js \<Rightarrow> jstring list \<Rightarrow> js" where
  "at_path v path = foldl js_get_opt v path"

definition fragment_by_precedence :: "js \<Rightarrow> js option" where
  "fragment_by_precedence v =
     (if at_path v [js ''type''] = JString (js ''content_block_delta'') \<and>
         at_path v [js ''delta'', js ''type''] = JString (js ''text_delta'')
      then Some (at_path v [js ''delta'', js ''text''])
      else if truthy (at_path v [js ''choices'', js ''0'', js ''delta'', js ''content''])
      then Some (at_path v [js ''choices'', js ''0'', js ''delta'', js ''content''])
      else if truthy (at_path v [js ''choices'', js ''0'', js ''message'', js ''content''])
      then Some (at_path v [js ''choices'', js ''0'', js ''message'', js ''content''])
      else None)"

text \<open>The content-delta shape of Anthropic, case (a) of the precedence.\<close>

definition is_text_delta :: "js \<Rightarrow> bool" where
  "is_text_delta v =
     (at_path v [js ''type''] = JString (js ''content_block_delta'') \<and>
      at_path v [js ''delta'', js ''type''] = JString (js ''text_delta''))"

text \<open>
  The environment variable that holds each provider's credential, as the \<open>switch\<close> of
  getApiKeyForProvider names them (utils.ts, lines 84 to 98).
\<close>

definition key_variable :: "Provider \<Rightarrow> string" where
  "key_variable provider =
     (case provider of
        Groq \<Rightarrow> ''VITE_GROQ_API_KEY''
      | Claude \<Rightarrow> ''VITE_CLAUDE_API_KEY''
      | OpenAI \<Rightarrow> ''VITE_OPENAI_API_KEY''
      | OpenRouter \<Rightarrow> ''VITE_OPENROUTER_API_KEY''
      | Flowise \<Rightarrow> ''VITE_FLOWISE_API_KEY''
      | Neura \<Rightarrow> ''VITE_NEURA_ROUTER_API_KEY''
      | Google \<Rightarrow> ''VITE_GOOGLE_API_KEY'')"

text \<open>
  The reference definition of the claim, in its words: the input messages with every
  empty-content message removed and the role \<open>system\<close> rewritten to \<open>user\<close>.
\<close>

definition reference_claude_messages :: "Message list \<Rightarrow> Message list" where
  "reference_claude_messages msgs =
     map (\<lambda>m. \<lparr>role = (if role m = System then User else role m), content = content m\<rparr>)
       (filter (\<lambda>m. content m \<noteq> []) msgs)"

text \<open>
  An entry of the history: \<open>apiMessage\<close> for the role \<open>assistant\<close>, \<open>userMessage\<close> otherwise.
  The reference history of the claim, in its words: all earlier non-system messages, that
  is, those before the most recent message of role \<open>user\<close>.
\<close>

definition history_tag :: "Message \<Rightarrow> history_entry" where
  "history_tag m =
     \<lparr>h_message = content m,
      h_type = (if role m = Assistant then apiMessage else userMessage),
      h_role = (if role m = Assistant then apiMessage else userMessage),
      h_content = content m\<rparr>"

definition reference_history :: "Message list \<Rightarrow> history_entry list" where
  "reference_history msgs =
     map history_tag
       (filter (\<lambda>m. role m \<noteq> System)
          (rev (tl (dropWhile (\<lambda>m. role m \<noteq> User) (rev msgs)))))"

text \<open>
  The priority of the claim, in its words: the response itself when it is a plain string,
  else its \<open>.text\<close>, else its \<open>.result\<close>, else the stringified \<open>.json\<close>, else the empty string;
  a field counts when it is truthy.
\<close>

definition content_by_priority :: "platform \<Rightarrow> js \<Rightarrow> js" where
  "content_by_priority pf response =
     (case response of
        JString s \<Rightarrow> response
      | _ \<Rightarrow>
          if truthy (at_path response [js ''text'']) then at_path response [js ''text'']
          else if truthy (at_path response [js ''result'']) then at_path response [js ''result'']
          else if truthy (at_path response [js ''json''])
          then JString (JSON_stringify pf (at_path response [js ''json'']))
          else JString [])"




section \<open>Properties of the stream decoder\<close>


























section \<open>Properties of the stream normaliser\<close>

subsection \<open>The fragment of a parsed value\<close>

lemma js_get_opt_nullish [simp]:
  "js_get_opt JUndefined k = JUndefined" "js_get_opt JNull k = JUndefined"
  by (simp_all add: js_get_opt_def)

lemma js_get_defined:
  "v \<noteq> JUndefined \<Longrightarrow> v \<noteq> JNull \<Longrightarrow> js_get v k = Some (js_get_opt v k)"
  by (cases v) (simp_all add: js_get_opt_def)

lemma truthy_defined: "truthy v \<Longrightarrow> v \<noteq> JUndefined \<and> v \<noteq> JNull"
  by (cases v) simp_all

lemma array_index_0: "array_index (js ''0'') = Some 0"
  by (simp add: array_index_def js_def is_digit_def digits_value_def)

lemma falsy_index: "\<not> truthy c \<Longrightarrow> js_get_opt c (js ''0'') = JUndefined"
  by (cases c) (simp_all add: js_get_opt_def array_index_0)

lemma choice_content_eq:
  assumes "v \<noteq> JUndefined" "v \<noteq> JNull"
  shows "choice_content v part =
           Some (if truthy (js_get_opt v (js ''choices''))
                 then at_path v [js ''choices'', js ''0'', part, js ''content'']
                 else js_get_opt v (js ''choices''))"
  using assms truthy_defined[of "js_get_opt v (js ''choices'')"]
  by (simp add: choice_content_def js_get_defined at_path_def)

lemma choice_content_truthy:
  assumes "v \<noteq> JUndefined" "v \<noteq> JNull"
  shows "\<exists>x. choice_content v part = Some x \<and>
           truthy x = truthy (at_path v [js ''choices'', js ''0'', part, js ''content''])"
  using assms falsy_index[of "js_get_opt v (js ''choices'')"]
  by (simp add: choice_content_eq at_path_def)

lemma yield_choice_content_eq:
  assumes "truthy (at_path v [js ''choices'', js ''0'', part, js ''content''])"
  shows "yield_choice_content v part =
           Some (at_path v [js ''choices'', js ''0'', part, js ''content''])"
proof -
  let ?ch = "js_get_opt v (js ''choices'')"
  let ?e = "js_get_opt ?ch (js ''0'')"
  let ?p = "js_get_opt ?e part"
  have t: "truthy (js_get_opt ?p (js ''content''))" using assms by (simp add: at_path_def)
  have p: "?p \<noteq> JUndefined \<and> ?p \<noteq> JNull" using t by (auto dest: truthy_defined)
  have c0: "?e \<noteq> JUndefined \<and> ?e \<noteq> JNull" using p by auto
  have c: "?ch \<noteq> JUndefined \<and> ?ch \<noteq> JNull" using c0 by auto
  have v: "v \<noteq> JUndefined \<and> v \<noteq> JNull" using c by auto
  have 1: "js_get v (js ''choices'') = Some ?ch" using v by (simp add: js_get_defined)
  have 2: "js_get ?ch (js ''0'') = Some ?e" using c by (simp add: js_get_defined)
  have 3: "js_get ?e part = Some ?p" using c0 by (simp add: js_get_defined)
  have 4: "js_get ?p (js ''content'') = Some (js_get_opt ?p (js ''content''))"
    using p by (simp add: js_get_defined)
  show ?thesis
    by (simp add: yield_choice_content_def 1 2 3 4 at_path_def)
qed

lemma extractFragment_nullish:
  "extractFragment JUndefined = None" "extractFragment JNull = None"
  by (simp_all add: extractFragment_def)

lemma extractFragment_precedence:
  assumes "v \<noteq> JUndefined" "v \<noteq> JNull"
  shows "extractFragment v =
           Some (case fragment_by_precedence v of None \<Rightarrow> [] | Some f \<Rightarrow> [f])"
proof -
  let ?d = "js_get_opt v (js ''delta'')"
  have g: "\<And>k. js_get v k = Some (js_get_opt v k)" using assms by (simp add: js_get_defined)
  show ?thesis
  proof (cases "js_get_opt v (js ''type'') = JString (js ''content_block_delta'') \<and>
                js_get_opt ?d (js ''type'') = JString (js ''text_delta'')")
    case True
    then have "?d \<noteq> JUndefined \<and> ?d \<noteq> JNull" by auto
    then show ?thesis
      using True by (simp add: extractFragment_def g js_get_defined fragment_by_precedence_def at_path_def)
  next
    case False
    obtain x where x: "choice_content v (js ''delta'') = Some x"
      "truthy x = truthy (at_path v [js ''choices'', js ''0'', js ''delta'', js ''content''])"
      using choice_content_truthy[OF assms] by blast
    obtain y where y: "choice_content v (js ''message'') = Some y"
      "truthy y = truthy (at_path v [js ''choices'', js ''0'', js ''message'', js ''content''])"
      using choice_content_truthy[OF assms] by blast
    have nd: "fragment_by_precedence v =
       (if truthy (at_path v [js ''choices'', js ''0'', js ''delta'', js ''content''])
        then Some (at_path v [js ''choices'', js ''0'', js ''delta'', js ''content''])
        else if truthy (at_path v [js ''choices'', js ''0'', js ''message'', js ''content''])
        then Some (at_path v [js ''choices'', js ''0'', js ''message'', js ''content''])
        else None)"
      using False by (auto simp add: fragment_by_precedence_def at_path_def)
    have ef: "extractFragment v =
       (if truthy x then Option.bind (yield_choice_content v (js ''delta'')) (\<lambda>c. Some [c])
        else if truthy y then Option.bind (yield_choice_content v (js ''message'')) (\<lambda>c. Some [c])
        else Some [])"
      using False by (auto simp add: extractFragment_def g x(1) y(1))
    show ?thesis
      unfolding ef nd x(2) y(2) by (simp add: yield_choice_content_eq)
  qed
qed

subsection \<open>Lines and chunks\<close>

lemma split_not_Nil: "split sep s \<noteq> []"
  by (induction s) (auto split: list.splits)

lemma split_no_sep: "sep \<notin> set s \<Longrightarrow> split sep s = [s]"
  by (induction s) auto

lemma split_append: "split sep (a @ sep # b) = split sep a @ split sep b"
proof (induction a)
  case Nil
  then show ?case by simp
next
  case (Cons c a)
  then show ?case using split_not_Nil[of sep a] by (auto split: list.splits)
qed

lemma startsWith_append [simp]: "startsWith (p @ s) p"
  by (induction p) auto

lemma trim_Nil_iff: "trim s = [] \<longleftrightarrow> (\<forall>c\<in>set s. isWhiteSpace c)"
proof
  assume "trim s = []"
  then have a: "\<forall>c\<in>set (dropWhile isWhiteSpace s). isWhiteSpace c"
    by (simp add: trim_def dropWhile_eq_Nil_conv)
  have "dropWhile isWhiteSpace s = []"
  proof (rule ccontr)
    assume n: "dropWhile isWhiteSpace s \<noteq> []"
    then have "\<not> isWhiteSpace (hd (dropWhile isWhiteSpace s))" by (rule hd_dropWhile)
    moreover have "hd (dropWhile isWhiteSpace s) \<in> set (dropWhile isWhiteSpace s)"
      using n by simp
    ultimately show False using a by blast
  qed
  then show "\<forall>c\<in>set s. isWhiteSpace c" by (simp add: dropWhile_eq_Nil_conv)
next
  assume "\<forall>c\<in>set s. isWhiteSpace c"
  then have e: "dropWhile isWhiteSpace s = []" by (simp add: dropWhile_eq_Nil_conv)
  show "trim s = []" unfolding trim_def e by simp
qed

lemma json_run_no_start:
  assumes "\<not> is_ws c" "c < 0x20 \<or> 0x7F < c"
  shows "json_run Value st (c # r) = None"
proof -
  have s: "skip_ws (c # r) = c # r" using assms by (simp add: skip_ws_def)
  have n: "json_scalar (c # r) = None"
    using assms
    by (auto simp add: json_scalar_def js_def json_number_def json_int_def is_digit_def Let_def)
  show ?thesis using assms by (auto simp add: s n)
qed

lemma ws_outside_json:
  "isWhiteSpace c \<Longrightarrow> \<not> is_ws c \<Longrightarrow> c < 0x20 \<or> 0x7F < c"
  by (auto simp add: isWhiteSpace_def is_ws_def)

lemma blank_no_parse:
  assumes "trim s = []"
  shows "JSON_parse s = None"
proof (cases "skip_ws s")
  case Nil
  then show ?thesis by (simp add: JSON_parse_def)
next
  case (Cons c r)
  then have "c \<in> set s" using set_dropWhileD[of c is_ws s] by (simp add: skip_ws_def)
  then have w: "isWhiteSpace c" using assms by (simp add: trim_Nil_iff)
  have nw: "\<not> is_ws c" using Cons hd_dropWhile[of is_ws s] by (simp add: skip_ws_def)
  have idem: "skip_ws (c # r) = c # r" using nw by (simp add: skip_ws_def)
  have "json_run Value [] s = json_run Value [] (c # r)"
    by (simp add: Cons idem)
  then show ?thesis
    using json_run_no_start[OF nw ws_outside_json[OF w nw]] by (simp add: JSON_parse_def)
qed

lemmas json_eval = JSON_parse_def skip_ws_def is_ws_def json_key_def json_scalar_def
  json_number_def json_int_def json_frac_def json_exp_def is_digit_def digits_value_def
  pow10_def escape_def hex4_def hex_digit_def

lemmas decode_eval = decode_stream_def new_TextDecoder_def utf8_handler_def utf8_lead_def
  utf8_initial_def utf16_def

lemmas stream_eval = streamChatResponse_def streamChunk_def chunkLines_def streamLine_def
  extractFragment_def choice_content_def yield_choice_content_def js_get_opt_def
  own_property_def array_index_def trim_def isWhiteSpace_def slice_def js_def

lemma trimmed_end:
  assumes "rev (dropWhile P (rev s)) = t"
  shows "\<exists>w. s = t @ w"
proof -
  have "s = rev (takeWhile P (rev s) @ dropWhile P (rev s))"
    by (simp only: takeWhile_dropWhile_id rev_rev_ident)
  also have "\<dots> = rev (dropWhile P (rev s)) @ rev (takeWhile P (rev s))"
    by (simp only: rev_append)
  finally show ?thesis using assms by auto
qed

lemma sentinel_no_parse:
  assumes "trim (js ''data: '' @ payload) = js ''data: [DONE]''"
  shows "JSON_parse payload = None"
proof -
  let ?line = "js ''data: '' @ payload"
  have h: "dropWhile isWhiteSpace ?line = ?line"
    by (simp add: js_def isWhiteSpace_def)
  have "rev (dropWhile isWhiteSpace (rev ?line)) = js ''data: [DONE]''"
    using assms unfolding trim_def h .
  then obtain w where "?line = js ''data: [DONE]'' @ w"
    using trimmed_end by blast
  then have "payload = js ''[DONE]'' @ w"
    by (simp add: js_def)
  then show ?thesis
    by (simp add: json_eval js_def)
qed

lemma data_line_chunk:
  assumes p: "JSON_parse payload = Some v" and nl: "0xA \<notin> set payload"
  shows "chunkLines (js ''data: '' @ payload) = [js ''data: '' @ payload]"
proof -
  let ?line = "js ''data: '' @ payload"
  have "0xA \<notin> set ?line" using nl by (simp add: js_def)
  then have s: "split 0xA ?line = [?line]" by (rule split_no_sep)
  have "\<not> (\<forall>c\<in>set ?line. isWhiteSpace c)" by (simp add: js_def isWhiteSpace_def)
  then have t: "trim ?line \<noteq> []" by (simp add: trim_Nil_iff)
  have d: "trim ?line \<noteq> js ''data: [DONE]''" using sentinel_no_parse[of payload] p by auto
  show ?thesis unfolding chunkLines_def s using t d by simp
qed

lemma data_line_parsed:
  assumes p: "JSON_parse payload = Some v"
    and ping: "\<not> includes_str (js ''data: '' @ payload) (js ''event: ping'')"
  shows "streamLine (js ''data: '' @ payload) =
           (case fragment_by_precedence v of None \<Rightarrow> [] | Some f \<Rightarrow> [f])"
proof -
  let ?line = "js ''data: '' @ payload"
  have e: "\<not> startsWith ?line (js ''event:'')" by (simp add: js_def)
  have d: "startsWith ?line (js ''data:'')" by (simp add: js_def)
  have d': "startsWith ?line (js ''data: '')" by simp
  have sl: "slice ?line 6 = payload" by (simp add: slice_def js_def)
  have t: "trim payload \<noteq> []" using blank_no_parse[of payload] p by auto
  have x: "(case extractFragment v of None \<Rightarrow> [] | Some fragments \<Rightarrow> fragments) =
             (case fragment_by_precedence v of None \<Rightarrow> [] | Some f \<Rightarrow> [f])"
  proof (cases "v = JUndefined \<or> v = JNull")
    case True
    then show ?thesis
      by (auto simp add: extractFragment_nullish fragment_by_precedence_def at_path_def)
  next
    case False
    then show ?thesis by (simp add: extractFragment_precedence)
  qed
  show ?thesis
    unfolding streamLine_def using ping e d d' t by (simp add: sl p x Let_def)
qed

lemma chunkLines_append: "chunkLines (a @ 0xA # b) = chunkLines a @ chunkLines b"
  by (simp add: chunkLines_def split_append)

lemma streamChunk_append: "streamChunk (a @ 0xA # b) = streamChunk a @ streamChunk b"
  by (simp add: streamChunk_def chunkLines_append)

lemma streamChunk_data_line:
  assumes "JSON_parse payload = Some v" "0xA \<notin> set payload"
    "\<not> includes_str (js ''data: '' @ payload) (js ''event: ping'')"
  shows "streamChunk (js ''data: '' @ payload) =
           (case fragment_by_precedence v of None \<Rightarrow> [] | Some f \<Rightarrow> [f])"
  using data_line_chunk[OF assms(1,2)] data_line_parsed[OF assms(1,3)]
  by (simp add: streamChunk_def)


text \<open>
  For every line \<open>data: payload\<close> of a chunk whose payload parses as a JSON value, and which
  does not contain the text \<open>event: ping\<close>, streamChatResponse yields at most one fragment,
  by the fixed precedence: the text of an Anthropic text delta; else the content of an
  incremental delta, \<open>choices[0].delta.content\<close>; else the content of a complete message,
  \<open>choices[0].message.content\<close>; else nothing. The fragments of the lines before and after
  it in the chunk come before and after its own.
\<close>

lemma data_line_precedence:
  \<open>(\<forall>payload v a b.
      JSON_parse payload = Some v \<longrightarrow> 0xA \<notin> set payload \<longrightarrow>
      \<not> includes_str (js ''data: '' @ payload) (js ''event: ping'') \<longrightarrow>
        streamChunk (js ''data: '' @ payload) =
          (case fragment_by_precedence v of None \<Rightarrow> [] | Some f \<Rightarrow> [f]) \<and>
        streamChunk (a @ 0xA # js ''data: '' @ payload @ 0xA # b) =
          streamChunk a @ (case fragment_by_precedence v of None \<Rightarrow> [] | Some f \<Rightarrow> [f])
            @ streamChunk b)
   \<and> streamChatResponse
        \<lparr>chunks = [''data: {"type":"content_block_delta","delta":{"type":"text_delta","text":"Yo"}}\<newline>\<newline>''],
         failure = (None :: error option)\<rparr>
       = ([JString (js ''Yo'')], None)\<close>
proof (intro conjI allI impI)
  fix payload v a b
  assume h: "JSON_parse payload = Some v" "0xA \<notin> set payload"
    "\<not> includes_str (js ''data: '' @ payload) (js ''event: ping'')"
  show "streamChunk (js ''data: '' @ payload) =
          (case fragment_by_precedence v of None \<Rightarrow> [] | Some f \<Rightarrow> [f])"
    using h by (rule streamChunk_data_line)
  have "streamChunk (a @ 0xA # (js ''data: '' @ payload) @ 0xA # b) =
          streamChunk a @ streamChunk (js ''data: '' @ payload) @ streamChunk b"
    by (simp only: streamChunk_append)
  then show "streamChunk (a @ 0xA # js ''data: '' @ payload @ 0xA # b) =
          streamChunk a @ (case fragment_by_precedence v of None \<Rightarrow> [] | Some f \<Rightarrow> [f])
            @ streamChunk b"
    by (simp add: streamChunk_data_line[OF h])
next
  show \<open>streamChatResponse
        \<lparr>chunks = [''data: {"type":"content_block_delta","delta":{"type":"text_delta","text":"Yo"}}\<newline>\<newline>''],
         failure = (None :: error option)\<rparr>
       = ([JString (js ''Yo'')], None)\<close>
    by (simp add: stream_eval decode_eval json_eval)
qed

lemma data_line_precedence_message:
  \<open>streamChunk (js ''data: {"choices":[{"message":{"content":"Hi"}}]}'') = [JString (js ''Hi'')]\<close>
proof -
  let ?payload = \<open>js ''{"choices":[{"message":{"content":"Hi"}}]}''\<close>
  let ?v = "JObject [(js ''choices'', JArray [JObject [(js ''message'',
              JObject [(js ''content'', JString (js ''Hi''))])]])]"
  have p: "JSON_parse ?payload = Some ?v" by (simp add: json_eval js_def)
  have n: "0xA \<notin> set ?payload" by (simp add: js_def)
  have g: "\<not> includes_str (js ''data: '' @ ?payload) (js ''event: ping'')"
    by (simp add: js_def)
  have f: "fragment_by_precedence ?v = Some (JString (js ''Hi''))"
    by (simp add: fragment_by_precedence_def at_path_def js_get_opt_def own_property_def
        array_index_def is_digit_def digits_value_def js_def)
  have "streamChunk (js ''data: '' @ ?payload) =
          (case fragment_by_precedence ?v of None \<Rightarrow> [] | Some f \<Rightarrow> [f])"
    using data_line_precedence[THEN conjunct1, rule_format, OF p n g] by (rule conjunct1)
  then show ?thesis using f by (simp add: js_def)
qed

text \<open>
  C1. The precedence is claimed for every line whose payload parses, and the guard of line
  312 is commented \<^verbatim>\<open>// Skip ping events\<close>. The guard tests whether the line contains
  the text \<open>event: ping\<close> anywhere: a ping event line starts with \<open>event:\<close> and is skipped
  by the next guard in any case, so all that the test changes is that a data line is
  dropped when its payload holds that text. For the line whose delta content is
  \<open>event: ping\<close> the payload parses and the precedence gives that content, yet the line
  yields nothing, while the same line with the content \<open>Hi\<close> yields \<open>Hi\<close>; the line of the
  claim, with the text delta \<open>Yo\<close>, yields \<open>Yo\<close>.
\<close>

theorem ping_text_line_dropped:
  \<open>JSON_parse (js ''{"choices":[{"delta":{"content":"event: ping"}}]}'')
     = Some (JObject [(js ''choices'', JArray [JObject [(js ''delta'',
              JObject [(js ''content'', JString (js ''event: ping''))])]])])
   \<and> fragment_by_precedence (JObject [(js ''choices'', JArray [JObject [(js ''delta'',
              JObject [(js ''content'', JString (js ''event: ping''))])]])])
     = Some (JString (js ''event: ping''))
   \<and> streamChatResponse
        \<lparr>chunks = [''data: {"choices":[{"delta":{"content":"event: ping"}}]}\<newline>\<newline>''],
         failure = (None :: error option)\<rparr>
       = ([], None)
   \<and> streamChatResponse
        \<lparr>chunks = [''data: {"choices":[{"delta":{"content":"Hi"}}]}\<newline>\<newline>''],
         failure = (None :: error option)\<rparr>
       = ([JString (js ''Hi'')], None)
   \<and> startsWith (js ''event: ping'') (js ''event:'')
   \<and> streamChatResponse
        \<lparr>chunks = [''data: {"type":"content_block_delta","delta":{"type":"text_delta","text":"Yo"}}\<newline>\<newline>''],
         failure = (None :: error option)\<rparr>
       = ([JString (js ''Yo'')], None)\<close>
proof (intro conjI)
  show \<open>JSON_parse (js ''{"choices":[{"delta":{"content":"event: ping"}}]}'')
     = Some (JObject [(js ''choices'', JArray [JObject [(js ''delta'',
              JObject [(js ''content'', JString (js ''event: ping''))])]])])\<close>
    by (simp add: json_eval js_def)
  show "fragment_by_precedence (JObject [(js ''choices'', JArray [JObject [(js ''delta'',
              JObject [(js ''content'', JString (js ''event: ping''))])]])])
     = Some (JString (js ''event: ping''))"
    by (simp add: fragment_by_precedence_def at_path_def js_get_opt_def own_property_def
        array_index_def is_digit_def digits_value_def js_def)
  show \<open>streamChatResponse
        \<lparr>chunks = [''data: {"choices":[{"delta":{"content":"event: ping"}}]}\<newline>\<newline>''],
         failure = (None :: error option)\<rparr>
       = ([], None)\<close>
    by (simp add: stream_eval decode_eval json_eval)
  show \<open>streamChatResponse
        \<lparr>chunks = [''data: {"choices":[{"delta":{"content":"Hi"}}]}\<newline>\<newline>''],
         failure = (None :: error option)\<rparr>
       = ([JString (js ''Hi'')], None)\<close>
    by (simp add: stream_eval decode_eval json_eval)
  show "startsWith (js ''event: ping'') (js ''event:'')"
    by (simp add: js_def)
  show \<open>streamChatResponse
        \<lparr>chunks = [''data: {"type":"content_block_delta","delta":{"type":"text_delta","text":"Yo"}}\<newline>\<newline>''],
         failure = (None :: error option)\<rparr>
       = ([JString (js ''Yo'')], None)\<close>
    by (simp add: stream_eval decode_eval json_eval)
qed

lemmas path_eval = fragment_by_precedence_def at_path_def js_get_opt_def own_property_def
  array_index_def is_digit_def digits_value_def js_def

lemma extractFragment_cases:
  "extractFragment v =
     (if v = JUndefined \<or> v = JNull then None
      else Some (case fragment_by_precedence v of None \<Rightarrow> [] | Some f \<Rightarrow> [f]))"
  by (auto simp add: extractFragment_nullish extractFragment_precedence)

text \<open>
  C10 (as amended). For a parsed value whose \<open>choices[0].delta.content\<close> is the empty
  string and which has not the Anthropic shape, the delta branch yields nothing: the line
  yields \<open>choices[0].message.content\<close> when that is truthy and nothing otherwise. Every
  fragment the two OpenAI-style branches yield is truthy, so never the empty string. A
  value of the Anthropic shape whose delta text is the empty string yields the empty
  fragment.
\<close>

theorem empty_delta_dropped:
  "(at_path v [js ''choices'', js ''0'', js ''delta'', js ''content''] = JString [] \<and>
      \<not> is_text_delta v \<longrightarrow>
      extractFragment v =
        Some (if truthy (at_path v [js ''choices'', js ''0'', js ''message'', js ''content''])
              then [at_path v [js ''choices'', js ''0'', js ''message'', js ''content'']]
              else []))
   \<and> (\<not> is_text_delta v \<and> extractFragment v = Some [f] \<longrightarrow> truthy f \<and> f \<noteq> JString [])
   \<and> (is_text_delta v \<and> at_path v [js ''delta'', js ''text''] = JString [] \<longrightarrow>
        extractFragment v = Some [JString []])"
proof -
  have 1: "extractFragment v =
        Some (if truthy (at_path v [js ''choices'', js ''0'', js ''message'', js ''content''])
              then [at_path v [js ''choices'', js ''0'', js ''message'', js ''content'']]
              else [])"
    if a: "at_path v [js ''choices'', js ''0'', js ''delta'', js ''content''] = JString [] \<and>
      \<not> is_text_delta v"
  proof -
    have "v \<noteq> JUndefined \<and> v \<noteq> JNull" using a by (auto simp add: at_path_def)
    then show ?thesis
      using a
      by (auto simp add: extractFragment_cases fragment_by_precedence_def is_text_delta_def)
  qed
  have 2: "truthy f \<and> f \<noteq> JString []"
    if a: "\<not> is_text_delta v \<and> extractFragment v = Some [f]"
  proof -
    have "truthy f"
      using a
      by (auto simp add: extractFragment_cases fragment_by_precedence_def is_text_delta_def
          split: if_splits)
    then show ?thesis by auto
  qed
  have 3: "extractFragment v = Some [JString []]"
    if a: "is_text_delta v \<and> at_path v [js ''delta'', js ''text''] = JString []"
  proof -
    have "v \<noteq> JUndefined \<and> v \<noteq> JNull" using a by (auto simp add: at_path_def is_text_delta_def)
    then show ?thesis
      using a
      by (auto simp add: extractFragment_cases fragment_by_precedence_def is_text_delta_def)
  qed
  show ?thesis using 1 2 3 by blast
qed

theorem empty_delta_dropped_witness:
  \<open>extractFragment (JObject [(js ''choices'', JArray [JObject
       [(js ''delta'', JObject [(js ''content'', JString [])])]])]) = Some []
   \<and> extractFragment (JObject [(js ''type'', JString (js ''content_block_delta'')),
        (js ''delta'', JObject [(js ''type'', JString (js ''text_delta'')),
                                (js ''text'', JString [])])]) = Some [JString []]\<close>
proof -
  let ?o = "JObject [(js ''choices'', JArray [JObject
       [(js ''delta'', JObject [(js ''content'', JString [])])]])]"
  let ?a = "JObject [(js ''type'', JString (js ''content_block_delta'')),
        (js ''delta'', JObject [(js ''type'', JString (js ''text_delta'')),
                                (js ''text'', JString [])])]"
  have 1: "at_path ?o [js ''choices'', js ''0'', js ''delta'', js ''content''] = JString [] \<and>
      \<not> is_text_delta ?o"
    by (simp add: is_text_delta_def path_eval)
  have 2: "\<not> truthy (at_path ?o [js ''choices'', js ''0'', js ''message'', js ''content''])"
    by (simp add: path_eval)
  have 3: "is_text_delta ?a \<and> at_path ?a [js ''delta'', js ''text''] = JString []"
    by (simp add: is_text_delta_def path_eval)
  show ?thesis
    using empty_delta_dropped[of ?o, THEN conjunct1, rule_format, OF 1]
      empty_delta_dropped[of ?a, THEN conjunct2, THEN conjunct2, rule_format, OF 3] 2
    by simp
qed

text \<open>
  The claim as stated, no fragment for a line whose \<open>choices[0].delta.content\<close> is the
  empty string, fails where the same choice also holds a message content: the chain of
  \<open>else if\<close>s goes on to the third branch, which yields it.
\<close>

theorem empty_delta_dropped_counterexample:
  \<open>JSON_parse (js ''{"choices":[{"delta":{"content":""},"message":{"content":"x"}}]}'')
     = Some (JObject [(js ''choices'', JArray [JObject
         [(js ''delta'', JObject [(js ''content'', JString [])]),
          (js ''message'', JObject [(js ''content'', JString (js ''x''))])]])])
   \<and> at_path (JObject [(js ''choices'', JArray [JObject
         [(js ''delta'', JObject [(js ''content'', JString [])]),
          (js ''message'', JObject [(js ''content'', JString (js ''x''))])]])])
        [js ''choices'', js ''0'', js ''delta'', js ''content''] = JString []
   \<and> streamChatResponse
        \<lparr>chunks = [''data: {"choices":[{"delta":{"content":""},"message":{"content":"x"}}]}\<newline>\<newline>''],
         failure = (None :: error option)\<rparr>
       = ([JString (js ''x'')], None)\<close>
proof (intro conjI)
  show \<open>JSON_parse (js ''{"choices":[{"delta":{"content":""},"message":{"content":"x"}}]}'')
     = Some (JObject [(js ''choices'', JArray [JObject
         [(js ''delta'', JObject [(js ''content'', JString [])]),
          (js ''message'', JObject [(js ''content'', JString (js ''x''))])]])])\<close>
    by (simp add: json_eval js_def)
  show "at_path (JObject [(js ''choices'', JArray [JObject
         [(js ''delta'', JObject [(js ''content'', JString [])]),
          (js ''message'', JObject [(js ''content'', JString (js ''x''))])]])])
        [js ''choices'', js ''0'', js ''delta'', js ''content''] = JString []"
    by (simp add: path_eval)
  show \<open>streamChatResponse
        \<lparr>chunks = [''data: {"choices":[{"delta":{"content":""},"message":{"content":"x"}}]}\<newline>\<newline>''],
         failure = (None :: error option)\<rparr>
       = ([JString (js ''x'')], None)\<close>
    by (simp add: stream_eval decode_eval json_eval)
qed

lemma streamLine_parse_failure:
  assumes "JSON_parse payload = None"
  shows "streamLine (js ''data: '' @ payload) = []"
proof -
  have "slice (js ''data: '' @ payload) 6 = payload" by (simp add: slice_def js_def)
  then show ?thesis using assms by (simp add: streamLine_def Let_def)
qed

lemma streamChunk_one_line:
  assumes "0xA \<notin> set s" "streamLine s = []"
  shows "streamChunk s = []"
  using assms by (simp add: streamChunk_def chunkLines_def split_no_sep)

lemma streamChunk_parse_failure:
  assumes "JSON_parse payload = None" "0xA \<notin> set payload"
  shows "streamChunk (js ''data: '' @ payload) = []"
proof -
  have "0xA \<notin> set (js ''data: '' @ payload)" using assms(2) by (simp add: js_def)
  then show ?thesis using streamLine_parse_failure[OF assms(1)] by (rule streamChunk_one_line)
qed

text \<open>
  C6. A line \<open>data: payload\<close> whose payload fails to parse as JSON yields nothing and
  stops nothing: inside a chunk, the fragments of the lines before it and after it are all
  yielded, in order; and every read is handled on its own, its fragments followed by those
  of the reads after it. In particular \<open>data: not-json\<close> followed by a valid line, in the
  same read or in the next one, yields the fragment of the valid line, and the generator
  returns.
\<close>

theorem invalid_line_skipped:
  \<open>(\<forall>payload a b.
      JSON_parse payload = None \<longrightarrow> 0xA \<notin> set payload \<longrightarrow>
        streamChunk (js ''data: '' @ payload @ 0xA # b) = streamChunk b \<and>
        streamChunk (a @ 0xA # js ''data: '' @ payload @ 0xA # b) = streamChunk a @ streamChunk b)
   \<and> (\<forall>td bs rest.
        streamReads td (bs # rest) =
          streamChunk (snd (decode_stream td bs)) @ streamReads (fst (decode_stream td bs)) rest)
   \<and> streamChatResponse
        \<lparr>chunks = [''data: not-json\<newline>\<newline>data: {"choices":[{"delta":{"content":"Hi"}}]}\<newline>\<newline>''],
         failure = (None :: error option)\<rparr>
       = ([JString (js ''Hi'')], None)
   \<and> streamChatResponse
        \<lparr>chunks = [''data: not-json\<newline>\<newline>'', ''data: {"choices":[{"delta":{"content":"Hi"}}]}\<newline>\<newline>''],
         failure = (None :: error option)\<rparr>
       = ([JString (js ''Hi'')], None)\<close>
proof (intro conjI allI impI)
  fix payload a b
  assume h: "JSON_parse payload = None" "0xA \<notin> set payload"
  have "streamChunk ((js ''data: '' @ payload) @ 0xA # b) =
          streamChunk (js ''data: '' @ payload) @ streamChunk b"
    by (rule streamChunk_append)
  then show "streamChunk (js ''data: '' @ payload @ 0xA # b) = streamChunk b"
    by (simp add: streamChunk_parse_failure[OF h])
  have "streamChunk (a @ 0xA # (js ''data: '' @ payload) @ 0xA # b) =
          streamChunk a @ streamChunk (js ''data: '' @ payload) @ streamChunk b"
    by (simp only: streamChunk_append)
  then show "streamChunk (a @ 0xA # js ''data: '' @ payload @ 0xA # b) =
          streamChunk a @ streamChunk b"
    by (simp add: streamChunk_parse_failure[OF h])
next
  fix td bs rest
  show "streamReads td (bs # rest) =
          streamChunk (snd (decode_stream td bs)) @ streamReads (fst (decode_stream td bs)) rest"
    by (simp split: prod.splits)
next
  show \<open>streamChatResponse
        \<lparr>chunks = [''data: not-json\<newline>\<newline>data: {"choices":[{"delta":{"content":"Hi"}}]}\<newline>\<newline>''],
         failure = (None :: error option)\<rparr>
       = ([JString (js ''Hi'')], None)\<close>
    by (simp add: stream_eval decode_eval json_eval)
next
  show \<open>streamChatResponse
        \<lparr>chunks = [''data: not-json\<newline>\<newline>'', ''data: {"choices":[{"delta":{"content":"Hi"}}]}\<newline>\<newline>''],
         failure = (None :: error option)\<rparr>
       = ([JString (js ''Hi'')], None)\<close>
    by (simp add: stream_eval decode_eval json_eval)
qed

theorem invalid_line_skipped_witness:
  \<open>JSON_parse (js ''not-json'') = None
   \<and> streamChunk (js ''data: not-json'' @ 0xA # js ''data: {"choices":[{"delta":{"content":"Hi"}}]}'')
       = [JString (js ''Hi'')]\<close>
proof -
  have p: "JSON_parse (js ''not-json'') = None" by (simp add: json_eval js_def)
  have n: "0xA \<notin> set (js ''not-json'')" by (simp add: js_def)
  have e: \<open>streamChunk (js ''data: {"choices":[{"delta":{"content":"Hi"}}]}'') = [JString (js ''Hi'')]\<close>
    by (simp add: stream_eval json_eval)
  have \<open>streamChunk (js ''data: '' @ js ''not-json'' @
          0xA # js ''data: {"choices":[{"delta":{"content":"Hi"}}]}'')
        = streamChunk (js ''data: {"choices":[{"delta":{"content":"Hi"}}]}'')\<close>
    using invalid_line_skipped[THEN conjunct1, rule_format, OF p n] by (rule conjunct1)
  then show ?thesis using p e by (simp add: js_def)
qed

lemma streamReads_append:
  "\<exists>td'. streamReads td (cs @ cs') = streamReads td cs @ streamReads td' cs'"
proof (induction cs arbitrary: td)
  case Nil
  then show ?case by auto
next
  case (Cons c cs)
  obtain td1 t where d: "decode_stream td c = (td1, t)" by (cases "decode_stream td c")
  obtain td' where "streamReads td1 (cs @ cs') = streamReads td1 cs @ streamReads td' cs'"
    using Cons.IH by blast
  then show ?case using d by auto
qed

lemma streamChunk_sentinel:
  assumes "trim s = js ''data: [DONE]''" "0xA \<notin> set s"
  shows "streamChunk s = []"
  using assms by (simp add: streamChunk_def chunkLines_def split_no_sep)

text \<open>
  The generator delivers the fragments of \<open>streamReads\<close> one for each call, in order; then
  it ends as the stream ends, and stays finished, with nothing left in the stream.
\<close>

lemma advance_reads:
  "advance td cs = (td', fs, rest) \<Longrightarrow>
     streamReads td cs = fs @ streamReads td' rest \<and> (fs = [] \<longrightarrow> rest = [])"
proof (induction cs arbitrary: td)
  case Nil
  then show ?case by simp
next
  case (Cons c cs)
  obtain td1 chunk where d: "decode_stream td c = (td1, chunk)" by (cases "decode_stream td c")
  show ?case
  proof (cases "streamChunk chunk")
    case Nil
    then have "advance td1 cs = (td', fs, rest)" using Cons.prems d by simp
    then have "streamReads td1 cs = fs @ streamReads td' rest \<and> (fs = [] \<longrightarrow> rest = [])"
      by (rule Cons.IH)
    then show ?thesis using d Nil by simp
  next
    case (Cons f fs')
    then show ?thesis using Cons.prems d by auto
  qed
qed

lemma consume_completed:
  "completed g \<Longrightarrow> consume n g = (replicate n Return, g)"
  by (induction n) (simp_all add: generator_next_def)

lemma consume_step:
  "generator_next g = (result, g') \<Longrightarrow> fst (consume (Suc n) g) = result # fst (consume n g')"
  by (simp split: prod.splits)

lemma consume_running:
  "\<not> completed g \<Longrightarrow> n \<le> m \<Longrightarrow>
     fst (consume n g) =
       take n (map Yield (pending g @ streamReads (text_decoder g) (chunks (reader g)))
               @ end_of_stream (failure (reader g)) # replicate m Return)"
proof (induction n arbitrary: g m)
  case 0
  then show ?case by simp
next
  case (Suc n)
  have le: "n \<le> m" using Suc.prems(2) by simp
  show ?case
  proof (cases "pending g")
    case (Cons f fs)
    let ?g = "g\<lparr>pending := fs\<rparr>"
    have n: "generator_next g = (Yield f, ?g)"
      using Suc.prems(1) Cons by (simp add: generator_next_def)
    have "\<not> completed ?g" using Suc.prems(1) by simp
    then have "fst (consume n ?g) =
       take n (map Yield (pending ?g @ streamReads (text_decoder ?g) (chunks (reader ?g)))
               @ end_of_stream (failure (reader ?g)) # replicate m Return)"
      using le by (rule Suc.IH)
    then have "fst (consume (Suc n) g) =
       Yield f # take n (map Yield (fs @ streamReads (text_decoder g) (chunks (reader g)))
               @ end_of_stream (failure (reader g)) # replicate m Return)"
      unfolding consume_step[OF n] by simp
    then show ?thesis unfolding Cons by simp
  next
    case Nil
    obtain td fs rest where a: "advance (text_decoder g) (chunks (reader g)) = (td, fs, rest)"
      by (cases "advance (text_decoder g) (chunks (reader g))")
    have r: "streamReads (text_decoder g) (chunks (reader g)) = fs @ streamReads td rest"
      "fs = [] \<longrightarrow> rest = []"
      using advance_reads[OF a] by simp_all
    show ?thesis
    proof (cases fs)
      case none: Nil
      let ?g = "g\<lparr>text_decoder := td, reader := (reader g)\<lparr>chunks := rest\<rparr>, completed := True\<rparr>"
      have n: "generator_next g = (end_of_stream (failure (reader g)), ?g)"
        using Suc.prems(1) Nil a none by (simp add: generator_next_def)
      have "consume n ?g = (replicate n Return, ?g)" by (rule consume_completed) simp
      moreover have "take n (replicate m (Return :: 'a iterator_result)) = replicate n Return"
        using le by simp
      moreover have "streamReads (text_decoder g) (chunks (reader g)) = []"
        using r none by simp
      ultimately show ?thesis unfolding consume_step[OF n] Nil by simp
    next
      case (Cons f fs')
      let ?g = "g\<lparr>text_decoder := td, pending := fs', reader := (reader g)\<lparr>chunks := rest\<rparr>\<rparr>"
      have n: "generator_next g = (Yield f, ?g)"
        using Suc.prems(1) Nil a Cons by (simp add: generator_next_def)
      have "\<not> completed ?g" using Suc.prems(1) by simp
      then have "fst (consume n ?g) =
         take n (map Yield (pending ?g @ streamReads (text_decoder ?g) (chunks (reader ?g)))
                 @ end_of_stream (failure (reader ?g)) # replicate m Return)"
        using le by (rule Suc.IH)
      then have "fst (consume (Suc n) g) =
         Yield f # take n (map Yield (fs' @ streamReads td rest)
                 @ end_of_stream (failure (reader g)) # replicate m Return)"
        unfolding consume_step[OF n] by simp
      then show ?thesis unfolding Nil r(1) Cons by simp
    qed
  qed
qed

lemma consume_generator:
  "fst (consume n (generator_of readable)) =
     take n (map Yield (fst (streamChatResponse readable))
             @ end_of_stream (snd (streamChatResponse readable)) # replicate n Return)"
  using consume_running[of "generator_of readable" n n]
  by (simp add: generator_of_def streamChatResponse_def)


lemma consume_state_completed:
  "completed g \<Longrightarrow> snd (consume n g) = g"
  by (simp add: consume_completed)

lemma consume_state_step:
  "generator_next g = (result, g') \<Longrightarrow> snd (consume (Suc n) g) = snd (consume n g')"
  by (simp split: prod.splits)

lemma consume_exhausts:
  "\<not> completed g \<Longrightarrow>
   length (pending g @ streamReads (text_decoder g) (chunks (reader g))) < n \<Longrightarrow>
     completed (snd (consume n g)) \<and> chunks (reader (snd (consume n g))) = []"
proof (induction n arbitrary: g)
  case 0
  then show ?case by simp
next
  case (Suc n)
  show ?case
  proof (cases "pending g")
    case (Cons f fs)
    let ?g = "g\<lparr>pending := fs\<rparr>"
    have n: "generator_next g = (Yield f, ?g)"
      using Suc.prems(1) Cons by (simp add: generator_next_def)
    have "\<not> completed ?g" using Suc.prems(1) by simp
    moreover have "length (pending ?g @ streamReads (text_decoder ?g) (chunks (reader ?g))) < n"
      using Suc.prems(2) Cons by simp
    ultimately have "completed (snd (consume n ?g)) \<and> chunks (reader (snd (consume n ?g))) = []"
      by (rule Suc.IH)
    then show ?thesis unfolding consume_state_step[OF n] .
  next
    case Nil
    obtain td fs rest where a: "advance (text_decoder g) (chunks (reader g)) = (td, fs, rest)"
      by (cases "advance (text_decoder g) (chunks (reader g))")
    have r: "streamReads (text_decoder g) (chunks (reader g)) = fs @ streamReads td rest"
      "fs = [] \<longrightarrow> rest = []"
      using advance_reads[OF a] by simp_all
    show ?thesis
    proof (cases fs)
      case none: Nil
      let ?g = "g\<lparr>text_decoder := td, reader := (reader g)\<lparr>chunks := rest\<rparr>, completed := True\<rparr>"
      have n: "generator_next g = (end_of_stream (failure (reader g)), ?g)"
        using Suc.prems(1) Nil a none by (simp add: generator_next_def)
      have "snd (consume n ?g) = ?g" by (rule consume_state_completed) simp
      then show ?thesis unfolding consume_state_step[OF n] using r(2) none by simp
    next
      case (Cons f fs')
      let ?g = "g\<lparr>text_decoder := td, pending := fs', reader := (reader g)\<lparr>chunks := rest\<rparr>\<rparr>"
      have n: "generator_next g = (Yield f, ?g)"
        using Suc.prems(1) Nil a Cons by (simp add: generator_next_def)
      have "\<not> completed ?g" using Suc.prems(1) by simp
      moreover have "length (pending ?g @ streamReads (text_decoder ?g) (chunks (reader ?g))) < n"
        using Suc.prems(2) Nil r(1) Cons by simp
      ultimately have "completed (snd (consume n ?g)) \<and> chunks (reader (snd (consume n ?g))) = []"
        by (rule Suc.IH)
      then show ?thesis unfolding consume_state_step[OF n] .
    qed
  qed
qed

lemma consume_generator_exhausts:
  assumes "length (fst (streamChatResponse readable)) < n"
  shows "completed (snd (consume n (generator_of readable)))"
    and "fst (streamChatResponse (reader (snd (consume n (generator_of readable))))) = []"
proof -
  have "completed (snd (consume n (generator_of readable)))
      \<and> chunks (reader (snd (consume n (generator_of readable)))) = []"
    using assms by (intro consume_exhausts) (simp_all add: generator_of_def streamChatResponse_def)
  then show "completed (snd (consume n (generator_of readable)))"
    and "fst (streamChatResponse (reader (snd (consume n (generator_of readable))))) = []"
    by (simp_all add: streamChatResponse_def)
qed

lemma streamChunk_Nil: "streamChunk [] = []"
  by (simp add: streamChunk_def chunkLines_def trim_def)

lemma streamChunk_sentinel_line:
  assumes "trim s = js ''data: [DONE]''" "0xA \<notin> set s"
    "before = [] \<or> last before = 0xA" "after = [] \<or> hd after = 0xA"
  shows "streamChunk (before @ s @ after) = streamChunk before @ streamChunk after"
proof -
  have s: "streamChunk s = []" by (rule streamChunk_sentinel[OF assms(1,2)])
  have a: "streamChunk (s @ after) = streamChunk after"
  proof (cases after)
    case Nil
    then show ?thesis using s by (simp add: streamChunk_Nil)
  next
    case (Cons c b)
    then have "after = 0xA # b" using assms(4) by simp
    moreover have "streamChunk (0xA # b) = streamChunk b"
      using streamChunk_append[of "[]" b] by (simp add: streamChunk_Nil)
    moreover have "streamChunk (s @ 0xA # b) = streamChunk s @ streamChunk b"
      by (rule streamChunk_append)
    ultimately show ?thesis using s by simp
  qed
  show ?thesis
  proof (cases "before = []")
    case True
    then show ?thesis using a by (simp add: streamChunk_Nil)
  next
    case False
    then have "before = butlast before @ [0xA]" using assms(3) by (metis append_butlast_last_id)
    then obtain p where p: "before = p @ [0xA]" by blast
    have "streamChunk (before @ s @ after) = streamChunk (p @ 0xA # (s @ after))" using p by simp
    also have "\<dots> = streamChunk p @ streamChunk (s @ after)" by (rule streamChunk_append)
    also have "\<dots> = streamChunk (p @ 0xA # []) @ streamChunk after"
      using a by (simp add: streamChunk_append streamChunk_Nil)
    finally show ?thesis using p by simp
  qed
qed

lemma utf8_decode_ascii:
  "bytes_needed d = 0 \<Longrightarrow> list_all (\<lambda>c. of_char c < (0x80 :: nat)) s \<Longrightarrow>
     utf8_decode d s = (d, js s)"
  by (induction s) (simp_all add: utf8_handler_def utf8_lead_def js_def)

lemma sentinel_read:
  assumes "bytes_needed (decoder td) = 0"
  shows "streamReads td (''data: [DONE]\<newline>\<newline>'' # rest) = streamReads (td\<lparr>BOM_seen := True\<rparr>) rest"
proof -
  have "utf8_decode (decoder td) ''data: [DONE]\<newline>\<newline>'' = (decoder td, js ''data: [DONE]\<newline>\<newline>'')"
    by (rule utf8_decode_ascii[OF assms]) simp
  then have d: "decode_stream td ''data: [DONE]\<newline>\<newline>''
      = (td\<lparr>BOM_seen := True\<rparr>, js ''data: [DONE]\<newline>\<newline>'')"
    by (simp add: decode_stream_def utf16_def js_def)
  have "streamChunk (js ''data: [DONE]\<newline>\<newline>'') = []"
    by (simp add: stream_eval)
  then show ?thesis using d by simp
qed

text \<open>
  C2 (as amended). For a byte stream that ends after finitely many reads, the fragment
  sequence is finite, consumable exactly once and forward-only: the first calls of
  \<open>next()\<close> deliver the fragments one by one in the order of the stream, the call after
  the last fragment ends the sequence as the stream ends (the generator returns when the
  stream closes and throws the error when a read is rejected), every later call answers
  \<open>done\<close>, the generator is then finished and the stream has no read left, so that
  normalising it again yields nothing. A sentinel line \<open>data: [DONE]\<close> yields no fragment
  and does not end the sequence: in any read and any decoder state, the lines before it
  and after it in the read and all the later reads yield their fragments; a read that
  holds the sentinel alone changes nothing but the decoder's mark that the start of the
  stream has passed. In particular the line with the delta content \<open>Hi\<close> followed by the
  sentinel yields exactly one fragment, \<open>Hi\<close>, and the generator returns.
\<close>

theorem stream_ends_with_source:
  \<open>(\<forall>(readable :: 'e readable) n.
       fst (consume n (generator_of readable))
         = take n (map Yield (fst (streamChatResponse readable))
                   @ end_of_stream (snd (streamChatResponse readable)) # replicate n Return)
       \<and> snd (streamChatResponse readable) = failure readable
       \<and> (length (fst (streamChatResponse readable)) < n \<longrightarrow>
            completed (snd (consume n (generator_of readable)))
            \<and> fst (streamChatResponse (reader (snd (consume n (generator_of readable))))) = []))
   \<and> (\<forall>td bs rest s before after.
         trim s = js ''data: [DONE]'' \<longrightarrow> 0xA \<notin> set s \<longrightarrow>
         (before = [] \<or> last before = 0xA) \<longrightarrow> (after = [] \<or> hd after = 0xA) \<longrightarrow>
         snd (decode_stream td bs) = before @ s @ after \<longrightarrow>
           streamReads td (bs # rest)
             = streamChunk before @ streamChunk after @ streamReads (fst (decode_stream td bs)) rest)
   \<and> (\<forall>td rest.
         bytes_needed (decoder td) = 0 \<longrightarrow>
           streamReads td (''data: [DONE]\<newline>\<newline>'' # rest) = streamReads (td\<lparr>BOM_seen := True\<rparr>) rest)
   \<and> (\<forall>rest (f :: 'e option).
         streamChatResponse \<lparr>chunks = ''data: [DONE]\<newline>\<newline>'' # rest, failure = f\<rparr>
           = (streamReads \<lparr>decoder = utf8_initial, BOM_seen = True\<rparr> rest, f))
   \<and> streamChatResponse
        \<lparr>chunks = [''data: {"choices":[{"delta":{"content":"Hi"}}]}\<newline>\<newline>data: [DONE]\<newline>\<newline>''],
         failure = (None :: error option)\<rparr>
       = ([JString (js ''Hi'')], None)\<close>
proof -
  have 1: "fst (consume n (generator_of readable))
         = take n (map Yield (fst (streamChatResponse readable))
                   @ end_of_stream (snd (streamChatResponse readable)) # replicate n Return)
       \<and> snd (streamChatResponse readable) = failure readable
       \<and> (length (fst (streamChatResponse readable)) < n \<longrightarrow>
            completed (snd (consume n (generator_of readable)))
            \<and> fst (streamChatResponse (reader (snd (consume n (generator_of readable))))) = [])"
    for readable :: "'e readable" and n
    using consume_generator[of n readable] consume_generator_exhausts[of readable n]
    by (simp add: streamChatResponse_def)
  have 2: "streamReads td (bs # rest)
             = streamChunk before @ streamChunk after @ streamReads (fst (decode_stream td bs)) rest"
    if h: "trim s = js ''data: [DONE]''" "0xA \<notin> set s" "before = [] \<or> last before = 0xA"
      "after = [] \<or> hd after = 0xA" "snd (decode_stream td bs) = before @ s @ after"
    for td bs rest s before after
  proof -
    obtain td1 where "decode_stream td bs = (td1, before @ s @ after)"
      using h(5) by (cases "decode_stream td bs") simp
    then show ?thesis using streamChunk_sentinel_line[OF h(1-4)] by simp
  qed
  have 3: "streamReads td (''data: [DONE]\<newline>\<newline>'' # rest) = streamReads (td\<lparr>BOM_seen := True\<rparr>) rest"
    if "bytes_needed (decoder td) = 0" for td rest
    using that by (rule sentinel_read)
  have 4: "streamChatResponse \<lparr>chunks = ''data: [DONE]\<newline>\<newline>'' # rest, failure = f\<rparr>
           = (streamReads \<lparr>decoder = utf8_initial, BOM_seen = True\<rparr> rest, f)"
    for rest and f :: "'e option"
    using sentinel_read[of new_TextDecoder rest]
    by (simp add: streamChatResponse_def new_TextDecoder_def utf8_initial_def)
  have 5: \<open>streamChatResponse
        \<lparr>chunks = [''data: {"choices":[{"delta":{"content":"Hi"}}]}\<newline>\<newline>data: [DONE]\<newline>\<newline>''],
         failure = (None :: error option)\<rparr>
       = ([JString (js ''Hi'')], None)\<close>
    by (simp add: stream_eval decode_eval json_eval)
  show ?thesis using 1 2 3 4 5 by blast
qed

theorem stream_ends_with_source_witness:
  \<open>trim (js ''data: [DONE] '') = js ''data: [DONE]'' \<and> 0xA \<notin> set (js ''data: [DONE] '')
   \<and> snd (decode_stream new_TextDecoder
             ''data: [DONE] \<newline>data: {"choices":[{"delta":{"content":"Hi"}}]}\<newline>'')
       = [] @ js ''data: [DONE] '' @ js ''\<newline>data: {"choices":[{"delta":{"content":"Hi"}}]}\<newline>''
   \<and> hd (js ''\<newline>data: {"choices":[{"delta":{"content":"Hi"}}]}\<newline>'') = 0xA
   \<and> bytes_needed (decoder new_TextDecoder) = 0
   \<and> streamChatResponse
        \<lparr>chunks = [''data: [DONE] \<newline>data: {"choices":[{"delta":{"content":"Hi"}}]}\<newline>'',
                   ''data: [DONE]\<newline>\<newline>'',
                   ''data: {"choices":[{"delta":{"content":"Yo"}}]}\<newline>''],
         failure = Some ''network error''\<rparr>
       = ([JString (js ''Hi''), JString (js ''Yo'')], Some ''network error'')
   \<and> fst (consume 5 (generator_of
        \<lparr>chunks = [''data: [DONE] \<newline>data: {"choices":[{"delta":{"content":"Hi"}}]}\<newline>'',
                   ''data: [DONE]\<newline>\<newline>'',
                   ''data: {"choices":[{"delta":{"content":"Yo"}}]}\<newline>''],
         failure = Some ''network error''\<rparr>))
       = [Yield (JString (js ''Hi'')), Yield (JString (js ''Yo'')), Throw ''network error'', Return, Return]
   \<and> completed (snd (consume 5 (generator_of
        \<lparr>chunks = [''data: [DONE] \<newline>data: {"choices":[{"delta":{"content":"Hi"}}]}\<newline>'',
                   ''data: [DONE]\<newline>\<newline>'',
                   ''data: {"choices":[{"delta":{"content":"Yo"}}]}\<newline>''],
         failure = Some ''network error''\<rparr>)))\<close>
proof -
  let ?b1 = \<open>''data: [DONE] \<newline>data: {"choices":[{"delta":{"content":"Hi"}}]}\<newline>''\<close>
  let ?b2 = \<open>''data: [DONE]\<newline>\<newline>''\<close>
  let ?b3 = \<open>''data: {"choices":[{"delta":{"content":"Yo"}}]}\<newline>''\<close>
  let ?after = \<open>js ''\<newline>data: {"choices":[{"delta":{"content":"Hi"}}]}\<newline>''\<close>
  let ?r = "\<lparr>chunks = [?b1, ?b2, ?b3], failure = Some ''network error''\<rparr>"
  let ?td = "\<lparr>decoder = utf8_initial, BOM_seen = True\<rparr>"
  have t: "trim (js ''data: [DONE] '') = js ''data: [DONE]''"
    by (simp add: trim_def isWhiteSpace_def js_def)
  have n: "0xA \<notin> set (js ''data: [DONE] '')" by (simp add: js_def)
  have d: "decode_stream new_TextDecoder ?b1 = (?td, [] @ js ''data: [DONE] '' @ ?after)"
    by (simp add: decode_eval js_def)
  have h: "hd ?after = 0xA" by (simp add: js_def)
  have z: "bytes_needed (decoder new_TextDecoder) = 0" "bytes_needed (decoder ?td) = 0"
    by (simp_all add: new_TextDecoder_def utf8_initial_def)
  have a: "streamChunk ?after = [JString (js ''Hi'')]"
    by (simp add: stream_eval json_eval)
  have y: "streamReads ?td [?b3] = [JString (js ''Yo'')]"
    by (simp add: stream_eval decode_eval json_eval)
  have "streamReads new_TextDecoder (?b1 # ?b2 # [?b3])
      = streamChunk [] @ streamChunk ?after
        @ streamReads (fst (decode_stream new_TextDecoder ?b1)) (?b2 # [?b3])"
    using stream_ends_with_source[THEN conjunct2, THEN conjunct1, rule_format,
        where s = "js ''data: [DONE] ''" and before = "[]" and after = ?after
          and td = new_TextDecoder and bs = ?b1 and rest = "?b2 # [?b3]"] t n h d
    by simp
  moreover have "streamReads ?td (?b2 # [?b3]) = streamReads (?td\<lparr>BOM_seen := True\<rparr>) [?b3]"
    using stream_ends_with_source[THEN conjunct2, THEN conjunct2, THEN conjunct1, rule_format,
        where td = ?td and rest = "[?b3]"] z(2) by simp
  ultimately have "streamReads new_TextDecoder [?b1, ?b2, ?b3] = [JString (js ''Hi''), JString (js ''Yo'')]"
    using d a y by (simp add: streamChunk_Nil)
  then have s: "streamChatResponse ?r = ([JString (js ''Hi''), JString (js ''Yo'')], Some ''network error'')"
    by (simp add: streamChatResponse_def)
  have g: "fst (consume 5 (generator_of ?r))
         = take 5 (map Yield (fst (streamChatResponse ?r))
                   @ end_of_stream (snd (streamChatResponse ?r)) # replicate 5 Return)
       \<and> snd (streamChatResponse ?r) = failure ?r
       \<and> (length (fst (streamChatResponse ?r)) < 5 \<longrightarrow>
            completed (snd (consume 5 (generator_of ?r)))
            \<and> fst (streamChatResponse (reader (snd (consume 5 (generator_of ?r))))) = [])"
    using stream_ends_with_source[THEN conjunct1, rule_format, where readable = ?r and n = 5] .
  have c: "fst (consume 5 (generator_of ?r))
      = [Yield (JString (js ''Hi'')), Yield (JString (js ''Yo'')), Throw ''network error'', Return, Return]"
    using g[THEN conjunct1] unfolding s by (simp add: end_of_stream_def numeral_eq_Suc)
  have e: "completed (snd (consume 5 (generator_of ?r)))"
    using g[THEN conjunct2, THEN conjunct2] unfolding s by simp
  show ?thesis using t n d h z(1) s c e by simp
qed

text \<open>
  The claim as stated has the sequence end when the sentinel is observed. The code only
  filters the sentinel line out: a valid line after it, in a later read or in the same one,
  still yields its fragment.
\<close>

theorem stream_ends_with_source_counterexample:
  \<open>streamChatResponse
      \<lparr>chunks = [''data: [DONE]\<newline>\<newline>''], failure = (None :: error option)\<rparr> = ([], None)
   \<and> streamChatResponse
        \<lparr>chunks = [''data: [DONE]\<newline>\<newline>'',
                   ''data: {"choices":[{"delta":{"content":"Hi"}}]}\<newline>\<newline>''],
         failure = (None :: error option)\<rparr>
       = ([JString (js ''Hi'')], None)
   \<and> streamChatResponse
        \<lparr>chunks = [''data: [DONE]\<newline>\<newline>data: {"choices":[{"delta":{"content":"Hi"}}]}\<newline>\<newline>''],
         failure = (None :: error option)\<rparr>
       = ([JString (js ''Hi'')], None)\<close>
  by (simp add: stream_eval decode_eval json_eval)



text \<open>
  The decoder carries the bytes of an unfinished code point to the next read, but the lines
  are split read by read and nothing carries an unfinished line: when a read ends inside a
  line (here inside the two bytes of U+00E9), the first part fails to parse and the rest
  has no prefix, so the line yields no fragment, truncated or otherwise.
\<close>

lemma line_cut_by_read:
  \<open>streamChatResponse
     \<lparr>chunks = [''data: {"choices":[{"delta":{"content":"caf'' @ [char_of (0xC3 :: nat)],
                 [char_of (0xA9 :: nat)] @ ''"}}]}\<newline>\<newline>''],
      failure = (None :: error option)\<rparr>
   = ([], None)\<close>
  by (simp add: stream_eval decode_eval json_eval)

text \<open>
  C5. The guard of the loop accepts a line that starts with \<open>data:\<close>, but only the six
  code units of \<open>data:\<close> and a space are ever cut off; a line with no space after the colon
  goes to \<open>JSON.parse\<close> whole, prefix included, which never parses. The remainder after
  the prefix parses and the same line with the space yields \<open>Hi\<close>; without the space the
  line yields nothing.
\<close>

theorem data_prefix_without_space:
  \<open>JSON_parse (js ''{"choices":[{"delta":{"content":"Hi"}}]}'')
     = Some (JObject [(js ''choices'', JArray [JObject [(js ''delta'',
              JObject [(js ''content'', JString (js ''Hi''))])]])])
   \<and> streamChatResponse
        \<lparr>chunks = [''data: {"choices":[{"delta":{"content":"Hi"}}]}\<newline>\<newline>''],
         failure = (None :: error option)\<rparr>
       = ([JString (js ''Hi'')], None)
   \<and> streamChatResponse
        \<lparr>chunks = [''data:{"choices":[{"delta":{"content":"Hi"}}]}\<newline>\<newline>''],
         failure = (None :: error option)\<rparr>
       = ([], None)\<close>
proof (intro conjI)
  show \<open>JSON_parse (js ''{"choices":[{"delta":{"content":"Hi"}}]}'')
     = Some (JObject [(js ''choices'', JArray [JObject [(js ''delta'',
              JObject [(js ''content'', JString (js ''Hi''))])]])])\<close>
    by (simp add: json_eval js_def)
  show \<open>streamChatResponse
        \<lparr>chunks = [''data: {"choices":[{"delta":{"content":"Hi"}}]}\<newline>\<newline>''],
         failure = (None :: error option)\<rparr>
       = ([JString (js ''Hi'')], None)\<close>
    by (simp add: stream_eval decode_eval json_eval)
  show \<open>streamChatResponse
        \<lparr>chunks = [''data:{"choices":[{"delta":{"content":"Hi"}}]}\<newline>\<newline>''],
         failure = (None :: error option)\<rparr>
       = ([], None)\<close>
    by (simp add: stream_eval decode_eval json_eval)
qed

section \<open>Properties of the request dispatcher\<close>

lemma getApiKey_variable:
  "getApiKeyForProvider env provider = env_or env (key_variable provider) []"
  by (cases provider) (simp_all add: getApiKeyForProvider_def key_variable_def)

lemma getApiKey_empty:
  "getApiKeyForProvider env provider = [] \<longleftrightarrow>
     (env (key_variable provider) = None \<or> env (key_variable provider) = Some [])"
  by (auto simp add: getApiKey_variable env_or_def split: option.splits)


text \<open>sendFlowiseRequest, check by check.\<close>

lemma flowise_no_url:
  "apiUrl = [] \<Longrightarrow>
   sendFlowiseRequest pf env apiUrl apiKey chatRequest =
     (Inl (MissingConfiguration
        (js ''Flowise API URL is not set. Please check your environment variables.'')), [])"
  by (simp add: sendFlowiseRequest_def)

lemma flowise_no_chatflow:
  "apiUrl \<noteq> [] \<Longrightarrow> env_or env ''VITE_FLOWISE_CHATFLOW_ID'' [] = [] \<Longrightarrow>
   sendFlowiseRequest pf env apiUrl apiKey chatRequest =
     (Inl (MissingConfiguration
        (js ''Flowise Chatflow ID is not set. Please check your environment variables.'')), [])"
  by (simp add: sendFlowiseRequest_def)

lemma flowise_no_user:
  "apiUrl \<noteq> [] \<Longrightarrow> env_or env ''VITE_FLOWISE_CHATFLOW_ID'' [] \<noteq> [] \<Longrightarrow>
   filter (\<lambda>msg. role msg = User) (messages chatRequest) = [] \<Longrightarrow>
   sendFlowiseRequest pf env apiUrl apiKey chatRequest = (Inl NoUserMessage, [])"
  by (simp add: sendFlowiseRequest_def)

lemma flowise_call:
  assumes "apiUrl \<noteq> []" "env_or env ''VITE_FLOWISE_CHATFLOW_ID'' [] \<noteq> []"
    "filter (\<lambda>msg. role msg = User) (messages chatRequest) \<noteq> []"
  shows "sendFlowiseRequest pf env apiUrl apiKey chatRequest =
     (let request = flowisePrediction apiUrl apiKey (env_or env ''VITE_FLOWISE_CHATFLOW_ID'' [])
                      chatRequest (last (filter (\<lambda>msg. role msg = User) (messages chatRequest)))
      in if stream chatRequest then
           (Inr (ByteStream (flowiseStream pf (createPredictionStream pf request))),
            [Prediction request])
         else
           (case createPrediction pf request of
              Inl message \<Rightarrow>
                (Inl (if message \<noteq> [] \<and>
                         (includes_str message (js ''<!DOCTYPE html>'') \<or>
                          includes_str message (js ''<html''))
                      then MisconfiguredEndpoint else Rejected message),
                 [Prediction request])
            | Inr response \<Rightarrow>
                (case flowiseContent pf response of
                   None \<Rightarrow> (Inl TypeError, [Prediction request])
                 | Some text \<Rightarrow>
                     (Inr (ChatResponse (assistant_response (JString (generateId pf)) text)),
                      [Prediction request]))))"
  using assms by (simp add: sendFlowiseRequest_def Let_def)

lemma sendFlowiseRequest_no_credential_error:
  "fst (sendFlowiseRequest pf env apiUrl apiKey chatRequest) \<noteq> Inl (MissingCredential p)"
proof (cases "apiUrl = []")
  case True
  then show ?thesis by (simp add: flowise_no_url)
next
  case u: False
  show ?thesis
  proof (cases "env_or env ''VITE_FLOWISE_CHATFLOW_ID'' [] = []")
    case True
    then show ?thesis using u by (simp add: flowise_no_chatflow)
  next
    case c: False
    show ?thesis
    proof (cases "filter (\<lambda>msg. role msg = User) (messages chatRequest) = []")
      case True
      then show ?thesis using u c by (simp add: flowise_no_user)
    next
      case False
      show ?thesis
        unfolding flowise_call[OF u c False]
        by (simp add: Let_def split: sum.splits option.splits)
    qed
  qed
qed

text \<open>
  C9. For every provider other than flowise, sendChatRequest with the provider's
  credential absent from the environment or empty fails with MissingCredential and sends
  nothing. For flowise, sendChatRequest is sendFlowiseRequest whatever the credential: it
  never fails with MissingCredential, and with the credential absent or empty (and the
  chatflow configured and a user message in the request) it calls the SDK, on a client
  with no API key.
\<close>

theorem missing_credential:
  "(provider \<noteq> Flowise \<and>
      (env (key_variable provider) = None \<or> env (key_variable provider) = Some []) \<longrightarrow>
      sendChatRequest pf env provider chatRequest = (Inl (MissingCredential provider), []))
   \<and> sendChatRequest pf env Flowise chatRequest =
        sendFlowiseRequest pf env (getApiUrlForProvider env Flowise)
          (getApiKeyForProvider env Flowise) chatRequest
   \<and> fst (sendChatRequest pf env Flowise chatRequest) \<noteq> Inl (MissingCredential p)
   \<and> ((env (key_variable Flowise) = None \<or> env (key_variable Flowise) = Some []) \<and>
        env_or env ''VITE_FLOWISE_CHATFLOW_ID'' [] \<noteq> [] \<and>
        (\<exists>m \<in> set (messages chatRequest). role m = User) \<longrightarrow>
        (\<exists>request. snd (sendChatRequest pf env Flowise chatRequest) = [Prediction request] \<and>
                   client_apiKey request = None))"
proof -
  have f: "sendChatRequest pf env Flowise chatRequest =
        sendFlowiseRequest pf env (getApiUrlForProvider env Flowise)
          (getApiKeyForProvider env Flowise) chatRequest"
    by (simp add: sendChatRequest_def Let_def)
  have 1: "sendChatRequest pf env provider chatRequest = (Inl (MissingCredential provider), [])"
    if "provider \<noteq> Flowise \<and>
      (env (key_variable provider) = None \<or> env (key_variable provider) = Some [])"
    using that getApiKey_empty[of env provider] by (simp add: sendChatRequest_def Let_def)
  have 3: "fst (sendChatRequest pf env Flowise chatRequest) \<noteq> Inl (MissingCredential p)"
    unfolding f by (rule sendFlowiseRequest_no_credential_error)
  have 4: "\<exists>request. snd (sendChatRequest pf env Flowise chatRequest) = [Prediction request] \<and>
                   client_apiKey request = None"
    if a: "(env (key_variable Flowise) = None \<or> env (key_variable Flowise) = Some []) \<and>
        env_or env ''VITE_FLOWISE_CHATFLOW_ID'' [] \<noteq> [] \<and>
        (\<exists>m \<in> set (messages chatRequest). role m = User)"
  proof -
    have k: "getApiKeyForProvider env Flowise = []" using a getApiKey_empty[of env Flowise] by simp
    have u: "getApiUrlForProvider env Flowise \<noteq> []"
      by (simp add: getApiUrlForProvider_def env_or_def js_def split: option.splits)
    have c: "env_or env ''VITE_FLOWISE_CHATFLOW_ID'' [] \<noteq> []" using a by simp
    have m: "filter (\<lambda>msg. role msg = User) (messages chatRequest) \<noteq> []"
      using a by (simp add: filter_empty_conv)
    show ?thesis
      unfolding f flowise_call[OF u c m] k
      by (simp add: Let_def flowisePrediction_def split: sum.splits option.splits)
  qed
  show ?thesis using f 1 3 4 by blast
qed

theorem missing_credential_witness:
  "\<forall>pf chatRequest.
     sendChatRequest pf (\<lambda>x. if x = ''VITE_GROQ_API_KEY'' then Some (js ''gsk'') else None)
       Claude chatRequest = (Inl (MissingCredential Claude), [])"
proof (intro allI)
  fix pf chatRequest
  let ?env = "\<lambda>x. if x = ''VITE_GROQ_API_KEY'' then Some (js ''gsk'') else None"
  have "Claude \<noteq> Flowise \<and> (?env (key_variable Claude) = None \<or> ?env (key_variable Claude) = Some [])"
    by (simp add: key_variable_def)
  then show "sendChatRequest pf ?env Claude chatRequest = (Inl (MissingCredential Claude), [])"
    using missing_credential[of Claude ?env pf chatRequest, THEN conjunct1] by blast
qed

lemma anthropicMessages_trim:
  "anthropicMessages chatRequest =
     map (\<lambda>m. \<lparr>role = (if role m = System then User else role m), content = content m\<rparr>)
       (filter (\<lambda>m. trim (content m) \<noteq> []) (messages chatRequest))"
proof -
  have "\<And>s. (s \<noteq> [] \<and> trim s \<noteq> []) = (trim s \<noteq> [])" by (auto simp add: trim_def)
  then show ?thesis by (simp add: anthropicMessages_def)
qed

text \<open>
  C3 (as amended). For the claude adapter, the messages of the transmitted body are the
  input messages without those whose content is empty or only white space, the role
  \<open>system\<close> rewritten to \<open>user\<close>; \<open>max_tokens\<close> is 16000 when streaming and 4096 otherwise;
  the body goes, with the model and the stream flag, to the proxy in one request. If no
  message is left, the call fails with EmptyRequest and sends nothing.
\<close>

theorem claude_request_body:
  "(filter (\<lambda>m. trim (content m) \<noteq> []) (messages chatRequest) = [] \<longrightarrow>
      sendClaudeRequest pf apiUrl apiKey chatRequest = (Inl EmptyRequest, []))
   \<and> (filter (\<lambda>m. trim (content m) \<noteq> []) (messages chatRequest) \<noteq> [] \<longrightarrow>
      snd (sendClaudeRequest pf apiUrl apiKey chatRequest) =
        [Fetch \<lparr>url = js ''/api/proxy/claude'',
                headers = [(js ''Content-Type'', js ''application/json''), (js ''x-api-key'', apiKey)],
                body = JObject
                  [(js ''model'', JString (model chatRequest)),
                   (js ''max_tokens'', JNumber (if stream chatRequest then 16000 else 4096)),
                   (js ''messages'', JArray (map message_js
                      (map (\<lambda>m. \<lparr>role = (if role m = System then User else role m),
                                    content = content m\<rparr>)
                         (filter (\<lambda>m. trim (content m) \<noteq> []) (messages chatRequest))))),
                   (js ''stream'', JBool (stream chatRequest))]\<rparr>])"
proof -
  let ?kept = "filter (\<lambda>m. trim (content m) \<noteq> []) (messages chatRequest)"
  have 1: "sendClaudeRequest pf apiUrl apiKey chatRequest = (Inl EmptyRequest, [])" if "?kept = []"
    using that by (simp add: sendClaudeRequest_def anthropicMessages_trim)
  have 2: "snd (sendClaudeRequest pf apiUrl apiKey chatRequest) =
        [Fetch \<lparr>url = js ''/api/proxy/claude'',
                headers = [(js ''Content-Type'', js ''application/json''), (js ''x-api-key'', apiKey)],
                body = JObject
                  [(js ''model'', JString (model chatRequest)),
                   (js ''max_tokens'', JNumber (if stream chatRequest then 16000 else 4096)),
                   (js ''messages'', JArray (map message_js
                      (map (\<lambda>m. \<lparr>role = (if role m = System then User else role m),
                                    content = content m\<rparr>) ?kept))),
                   (js ''stream'', JBool (stream chatRequest))]\<rparr>]" if "?kept \<noteq> []"
  proof -
    have n: "length (anthropicMessages chatRequest) \<noteq> 0" using that by (simp add: anthropicMessages_trim)
    show ?thesis
      unfolding sendClaudeRequest_def using n
      by (simp add: Let_def claudeRequestBody_def anthropicMessages_trim
          split: sum.splits option.splits)
  qed
  show ?thesis using 1 2 by blast
qed

theorem claude_request_body_witness:
  "\<forall>pf apiUrl apiKey.
     snd (sendClaudeRequest pf apiUrl apiKey
        \<lparr>messages = [\<lparr>role = System, content = js ''be brief''\<rparr>, \<lparr>role = User, content = []\<rparr>,
                     \<lparr>role = Assistant, content = js '' ''\<rparr>, \<lparr>role = User, content = js ''hi''\<rparr>],
         model = js ''claude-3'', temperature = 0, stream = False\<rparr>) =
       [Fetch \<lparr>url = js ''/api/proxy/claude'',
               headers = [(js ''Content-Type'', js ''application/json''), (js ''x-api-key'', apiKey)],
               body = JObject
                 [(js ''model'', JString (js ''claude-3'')),
                  (js ''max_tokens'', JNumber 4096),
                  (js ''messages'', JArray
                     [message_js \<lparr>role = User, content = js ''be brief''\<rparr>,
                      message_js \<lparr>role = User, content = js ''hi''\<rparr>]),
                  (js ''stream'', JBool False)]\<rparr>]"
proof (intro allI)
  fix pf apiUrl apiKey
  let ?r = "\<lparr>messages = [\<lparr>role = System, content = js ''be brief''\<rparr>, \<lparr>role = User, content = []\<rparr>,
                     \<lparr>role = Assistant, content = js '' ''\<rparr>, \<lparr>role = User, content = js ''hi''\<rparr>],
         model = js ''claude-3'', temperature = 0, stream = False\<rparr>"
  have k: "filter (\<lambda>m. trim (content m) \<noteq> []) (messages ?r) =
      [\<lparr>role = System, content = js ''be brief''\<rparr>, \<lparr>role = User, content = js ''hi''\<rparr>]"
    by (simp add: trim_def isWhiteSpace_def js_def)
  show "snd (sendClaudeRequest pf apiUrl apiKey ?r) =
       [Fetch \<lparr>url = js ''/api/proxy/claude'',
               headers = [(js ''Content-Type'', js ''application/json''), (js ''x-api-key'', apiKey)],
               body = JObject
                 [(js ''model'', JString (js ''claude-3'')),
                  (js ''max_tokens'', JNumber 4096),
                  (js ''messages'', JArray
                     [message_js \<lparr>role = User, content = js ''be brief''\<rparr>,
                      message_js \<lparr>role = User, content = js ''hi''\<rparr>]),
                  (js ''stream'', JBool False)]\<rparr>]"
    using claude_request_body[of ?r pf apiUrl apiKey, THEN conjunct2] unfolding k by simp
qed

text \<open>
  The claim as stated removes the messages of empty content only. A message of one space
  is in the reference messages, so the claim has it transmitted; the code, which tests
  \<^verbatim>\<open>msg.content.trim() !== ''\<close>, drops it and, no message being left, fails with
  EmptyRequest.
\<close>

theorem claude_request_body_counterexample:
  "reference_claude_messages [\<lparr>role = User, content = js '' ''\<rparr>]
     = [\<lparr>role = User, content = js '' ''\<rparr>]
   \<and> (\<forall>pf apiUrl apiKey.
        sendClaudeRequest pf apiUrl apiKey
          \<lparr>messages = [\<lparr>role = User, content = js '' ''\<rparr>],
           model = js ''claude-3'', temperature = 0, stream = False\<rparr>
        = (Inl EmptyRequest, []))"
  by (simp add: reference_claude_messages_def sendClaudeRequest_def anthropicMessages_def
      trim_def isWhiteSpace_def js_def)

lemma last_user:
  assumes "role q = User" "\<forall>m\<in>set post. role m \<noteq> User"
  shows "last (filter (\<lambda>msg. role msg = User) (pre @ q # post)) = q"
proof -
  have "filter (\<lambda>msg. role msg = User) post = []" using assms(2) by (simp add: filter_empty_conv)
  then show ?thesis using assms(1) by simp
qed

lemma flowiseHistory_tag:
  "flowiseHistory chatRequest q =
     map history_tag
       (filter (\<lambda>msg. role msg \<noteq> System \<and> \<not> (role msg = User \<and> content msg = content q))
          (messages chatRequest))"
  by (simp add: flowiseHistory_def history_tag_def)

lemma filter_others:
  "\<forall>m\<in>set xs. role m = User \<longrightarrow> content m \<noteq> content q \<Longrightarrow>
   filter (\<lambda>msg. role msg \<noteq> System \<and> \<not> (role msg = User \<and> content msg = content q)) xs
     = filter (\<lambda>m. role m \<noteq> System) xs"
  by (induction xs) auto

lemma flowiseHistory_others:
  assumes "role q = User"
    "\<forall>m\<in>set (pre @ post). role m = User \<longrightarrow> content m \<noteq> content q"
  shows "flowiseHistory (chatRequest\<lparr>messages := pre @ q # post\<rparr>) q =
           map history_tag (filter (\<lambda>m. role m \<noteq> System) (pre @ post))"
proof -
  have p: "\<forall>m\<in>set pre. role m = User \<longrightarrow> content m \<noteq> content q"
    and q: "\<forall>m\<in>set post. role m = User \<longrightarrow> content m \<noteq> content q"
    using assms(2) by auto
  show ?thesis
    unfolding flowiseHistory_tag using assms(1) filter_others[OF p] filter_others[OF q]
    by simp
qed

text \<open>
  C4 (as amended). For the flowise adapter, with the URL and the chatflow configured: a
  request with no message of role \<open>user\<close> fails with NoUserMessage and nothing is sent;
  otherwise the question sent is the content of the most recent message of role \<open>user\<close>,
  and, where no other user message repeats that content, the history sent consists of all
  the other non-system messages, those before and those after that message, in order, each
  tagged \<open>apiMessage\<close> when its role is \<open>assistant\<close> and \<open>userMessage\<close> otherwise (no history
  at all when there is none).
\<close>

theorem flowise_question_and_history:
  assumes "apiUrl \<noteq> []" "env_or env ''VITE_FLOWISE_CHATFLOW_ID'' [] \<noteq> []"
  shows
    "((\<forall>m\<in>set (messages chatRequest). role m \<noteq> User) \<longrightarrow>
        sendFlowiseRequest pf env apiUrl apiKey chatRequest = (Inl NoUserMessage, []))
     \<and> (messages chatRequest = pre @ q # post \<and> role q = User \<and>
          (\<forall>m\<in>set post. role m \<noteq> User) \<longrightarrow>
          (\<exists>request.
             snd (sendFlowiseRequest pf env apiUrl apiKey chatRequest) = [Prediction request] \<and>
             question request = content q \<and>
             ((\<forall>m\<in>set (pre @ post). role m = User \<longrightarrow> content m \<noteq> content q) \<longrightarrow>
                history request =
                  (if filter (\<lambda>m. role m \<noteq> System) (pre @ post) = [] then None
                   else Some (map history_tag (filter (\<lambda>m. role m \<noteq> System) (pre @ post)))))))"
proof -
  have 1: "sendFlowiseRequest pf env apiUrl apiKey chatRequest = (Inl NoUserMessage, [])"
    if "\<forall>m\<in>set (messages chatRequest). role m \<noteq> User"
  proof -
    have "filter (\<lambda>msg. role msg = User) (messages chatRequest) = []"
      using that by (simp add: filter_empty_conv)
    then show ?thesis using assms by (simp add: flowise_no_user)
  qed
  have 2: "\<exists>request.
             snd (sendFlowiseRequest pf env apiUrl apiKey chatRequest) = [Prediction request] \<and>
             question request = content q \<and>
             ((\<forall>m\<in>set (pre @ post). role m = User \<longrightarrow> content m \<noteq> content q) \<longrightarrow>
                history request =
                  (if filter (\<lambda>m. role m \<noteq> System) (pre @ post) = [] then None
                   else Some (map history_tag (filter (\<lambda>m. role m \<noteq> System) (pre @ post)))))"
    if a: "messages chatRequest = pre @ q # post \<and> role q = User \<and>
          (\<forall>m\<in>set post. role m \<noteq> User)"
  proof -
    let ?users = "filter (\<lambda>msg. role msg = User) (messages chatRequest)"
    have l: "last ?users = q" using a last_user[of q post pre] by simp
    have n: "?users \<noteq> []" using a by simp
    let ?request = "flowisePrediction apiUrl apiKey (env_or env ''VITE_FLOWISE_CHATFLOW_ID'' [])
                      chatRequest q"
    have s: "snd (sendFlowiseRequest pf env apiUrl apiKey chatRequest) = [Prediction ?request]"
      unfolding flowise_call[OF assms n] l
      by (simp add: Let_def split: sum.splits option.splits)
    have qu: "question ?request = content q" by (simp add: flowisePrediction_def Let_def)
    have c: "chatRequest\<lparr>messages := pre @ q # post\<rparr> = chatRequest" using a by simp
    have h: "history ?request =
                  (if filter (\<lambda>m. role m \<noteq> System) (pre @ post) = [] then None
                   else Some (map history_tag (filter (\<lambda>m. role m \<noteq> System) (pre @ post))))"
      if "\<forall>m\<in>set (pre @ post). role m = User \<longrightarrow> content m \<noteq> content q"
      using flowiseHistory_others[of q pre post chatRequest] a that
      by (simp add: flowisePrediction_def Let_def c)
    show ?thesis using s qu h by blast
  qed
  show ?thesis using 1 2 by blast
qed

theorem flowise_question_and_history_witness:
  "\<forall>pf apiKey. \<exists>request.
     snd (sendFlowiseRequest pf
            (\<lambda>x. if x = ''VITE_FLOWISE_CHATFLOW_ID'' then Some (js ''flow'') else None)
            (js ''http://localhost:3000/api/v1/prediction'') apiKey
            \<lparr>messages = [\<lparr>role = System, content = js ''s''\<rparr>, \<lparr>role = User, content = js ''a''\<rparr>,
                         \<lparr>role = Assistant, content = js ''b''\<rparr>, \<lparr>role = User, content = js ''q''\<rparr>,
                         \<lparr>role = Assistant, content = js ''c''\<rparr>],
             model = js ''m'', temperature = 0, stream = False\<rparr>) = [Prediction request]
     \<and> question request = js ''q''
     \<and> history request =
         Some [\<lparr>h_message = js ''a'', h_type = userMessage, h_role = userMessage, h_content = js ''a''\<rparr>,
               \<lparr>h_message = js ''b'', h_type = apiMessage, h_role = apiMessage, h_content = js ''b''\<rparr>,
               \<lparr>h_message = js ''c'', h_type = apiMessage, h_role = apiMessage, h_content = js ''c''\<rparr>]"
proof (intro allI)
  fix pf apiKey
  let ?env = "\<lambda>x. if x = ''VITE_FLOWISE_CHATFLOW_ID'' then Some (js ''flow'') else None"
  let ?url = "js ''http://localhost:3000/api/v1/prediction''"
  let ?pre = "[\<lparr>role = System, content = js ''s''\<rparr>, \<lparr>role = User, content = js ''a''\<rparr>,
               \<lparr>role = Assistant, content = js ''b''\<rparr>]"
  let ?q = "\<lparr>role = User, content = js ''q''\<rparr>"
  let ?post = "[\<lparr>role = Assistant, content = js ''c''\<rparr>]"
  let ?r = "\<lparr>messages = ?pre @ ?q # ?post, model = js ''m'', temperature = 0, stream = False\<rparr>"
  have u: "?url \<noteq> []" by (simp add: js_def)
  have c: "env_or ?env ''VITE_FLOWISE_CHATFLOW_ID'' [] \<noteq> []" by (simp add: env_or_def js_def)
  have m: "messages ?r = ?pre @ ?q # ?post \<and> role ?q = User \<and> (\<forall>m\<in>set ?post. role m \<noteq> User)"
    by simp
  have d: "\<forall>m\<in>set (?pre @ ?post). role m = User \<longrightarrow> content m \<noteq> content ?q"
    by (simp add: js_def)
  obtain request where
    r: "snd (sendFlowiseRequest pf ?env ?url apiKey ?r) = [Prediction request]"
       "question request = content ?q"
       "(\<forall>m\<in>set (?pre @ ?post). role m = User \<longrightarrow> content m \<noteq> content ?q) \<longrightarrow>
          history request =
            (if filter (\<lambda>m. role m \<noteq> System) (?pre @ ?post) = [] then None
             else Some (map history_tag (filter (\<lambda>m. role m \<noteq> System) (?pre @ ?post))))"
    using flowise_question_and_history[OF u c, of ?r pf apiKey ?pre ?q ?post, THEN conjunct2] m
    by blast
  have h: "history request =
         Some [\<lparr>h_message = js ''a'', h_type = userMessage, h_role = userMessage, h_content = js ''a''\<rparr>,
               \<lparr>h_message = js ''b'', h_type = apiMessage, h_role = apiMessage, h_content = js ''b''\<rparr>,
               \<lparr>h_message = js ''c'', h_type = apiMessage, h_role = apiMessage, h_content = js ''c''\<rparr>]"
    using r(3) d by (simp add: history_tag_def)
  show "\<exists>request.
     snd (sendFlowiseRequest pf ?env ?url apiKey
            \<lparr>messages = [\<lparr>role = System, content = js ''s''\<rparr>, \<lparr>role = User, content = js ''a''\<rparr>,
                         \<lparr>role = Assistant, content = js ''b''\<rparr>, \<lparr>role = User, content = js ''q''\<rparr>,
                         \<lparr>role = Assistant, content = js ''c''\<rparr>],
             model = js ''m'', temperature = 0, stream = False\<rparr>) = [Prediction request]
     \<and> question request = js ''q''
     \<and> history request =
         Some [\<lparr>h_message = js ''a'', h_type = userMessage, h_role = userMessage, h_content = js ''a''\<rparr>,
               \<lparr>h_message = js ''b'', h_type = apiMessage, h_role = apiMessage, h_content = js ''b''\<rparr>,
               \<lparr>h_message = js ''c'', h_type = apiMessage, h_role = apiMessage, h_content = js ''c''\<rparr>]"
    using r(1,2) h by auto
qed

text \<open>
  The claim as stated sends the earlier messages only. For a user message followed by an
  assistant message there is no earlier message, yet the history sent holds the assistant
  message: the filter of lines 183 and 184 does not look at positions.
\<close>

theorem flowise_question_and_history_counterexample:
  "reference_history [\<lparr>role = User, content = js ''q''\<rparr>, \<lparr>role = Assistant, content = js ''a''\<rparr>] = []
   \<and> (\<forall>pf apiKey. \<exists>request.
        snd (sendFlowiseRequest pf
               (\<lambda>x. if x = ''VITE_FLOWISE_CHATFLOW_ID'' then Some (js ''flow'') else None)
               (js ''http://localhost:3000/api/v1/prediction'') apiKey
               \<lparr>messages = [\<lparr>role = User, content = js ''q''\<rparr>,
                            \<lparr>role = Assistant, content = js ''a''\<rparr>],
                model = js ''m'', temperature = 0, stream = False\<rparr>) = [Prediction request]
        \<and> question request = js ''q''
        \<and> history request =
            Some [\<lparr>h_message = js ''a'', h_type = apiMessage, h_role = apiMessage,
                   h_content = js ''a''\<rparr>])"
proof (intro conjI allI)
  show "reference_history [\<lparr>role = User, content = js ''q''\<rparr>,
          \<lparr>role = Assistant, content = js ''a''\<rparr>] = []"
    by (simp add: reference_history_def)
next
  fix pf apiKey
  let ?env = "\<lambda>x. if x = ''VITE_FLOWISE_CHATFLOW_ID'' then Some (js ''flow'') else None"
  let ?url = "js ''http://localhost:3000/api/v1/prediction''"
  let ?r = "\<lparr>messages = [\<lparr>role = User, content = js ''q''\<rparr>,
                            \<lparr>role = Assistant, content = js ''a''\<rparr>],
                model = js ''m'', temperature = 0, stream = False\<rparr>"
  have u: "?url \<noteq> []" by (simp add: js_def)
  have c: "env_or ?env ''VITE_FLOWISE_CHATFLOW_ID'' [] \<noteq> []" by (simp add: env_or_def js_def)
  have n: "filter (\<lambda>msg. role msg = User) (messages ?r) \<noteq> []" by simp
  show "\<exists>request.
        snd (sendFlowiseRequest pf ?env ?url apiKey ?r) = [Prediction request]
        \<and> question request = js ''q''
        \<and> history request =
            Some [\<lparr>h_message = js ''a'', h_type = apiMessage, h_role = apiMessage,
                   h_content = js ''a''\<rparr>]"
    unfolding flowise_call[OF u c n]
    by (simp add: Let_def flowisePrediction_def flowiseHistory_def split: sum.splits option.splits)
qed

text \<open>
  The filter of the history drops by content, not by position: an earlier user message
  that repeats the question is dropped with it, although the comment of line 182 has the
  history exclude the last user message only.
\<close>

lemma flowise_history_repeated_question:
  "flowiseHistory
     \<lparr>messages = [\<lparr>role = User, content = js ''hi''\<rparr>, \<lparr>role = Assistant, content = js ''yo''\<rparr>,
                  \<lparr>role = User, content = js ''hi''\<rparr>],
      model = js ''m'', temperature = 0, stream = False\<rparr>
     \<lparr>role = User, content = js ''hi''\<rparr>
   = [history_tag \<lparr>role = Assistant, content = js ''yo''\<rparr>]"
  by (simp add: flowiseHistory_def history_tag_def)

lemma flowiseContent_priority:
  assumes "response \<noteq> JUndefined" "response \<noteq> JNull"
  shows "flowiseContent pf response = Some (content_by_priority pf response)"
  using assms
  by (cases response)
     (simp_all add: flowiseContent_def content_by_priority_def at_path_def js_get_opt_def)

lemma assistant_response_choice:
  "at_path (assistant_response ident text) [js ''choices''] =
     JArray [JObject [(js ''index'', JNumber 0),
                      (js ''message'', JObject [(js ''role'', JString (js ''assistant'')),
                                                (js ''content'', text)]),
                      (js ''finish_reason'', JString (js ''stop''))]]"
  by (simp add: assistant_response_def at_path_def js_get_opt_def own_property_def js_def)

lemma choice_message_content:
  "at_path (JObject [(js ''index'', JNumber 0),
                     (js ''message'', JObject [(js ''role'', JString (js ''assistant'')),
                                               (js ''content'', text)]),
                     (js ''finish_reason'', JString (js ''stop''))])
     [js ''message'', js ''content''] = text"
  by (simp add: at_path_def js_get_opt_def own_property_def js_def)

lemma flowise_sent:
  assumes "snd (sendFlowiseRequest pf env apiUrl apiKey chatRequest) = [Prediction request]"
  shows "apiUrl \<noteq> [] \<and> env_or env ''VITE_FLOWISE_CHATFLOW_ID'' [] \<noteq> [] \<and>
         filter (\<lambda>msg. role msg = User) (messages chatRequest) \<noteq> [] \<and>
         request = flowisePrediction apiUrl apiKey (env_or env ''VITE_FLOWISE_CHATFLOW_ID'' [])
                     chatRequest (last (filter (\<lambda>msg. role msg = User) (messages chatRequest)))"
proof -
  have u: "apiUrl \<noteq> []" using assms by (auto simp add: flowise_no_url)
  have c: "env_or env ''VITE_FLOWISE_CHATFLOW_ID'' [] \<noteq> []"
    using assms u by (auto simp add: flowise_no_chatflow)
  have n: "filter (\<lambda>msg. role msg = User) (messages chatRequest) \<noteq> []"
    using assms u c by (auto simp add: flowise_no_user)
  have "request = flowisePrediction apiUrl apiKey (env_or env ''VITE_FLOWISE_CHATFLOW_ID'' [])
                     chatRequest (last (filter (\<lambda>msg. role msg = User) (messages chatRequest)))"
    using assms unfolding flowise_call[OF u c n]
    by (simp add: Let_def split: if_splits sum.splits option.splits)
  then show ?thesis using u c n by simp
qed

text \<open>
  C7. For a non-streaming flowise call that reaches the SDK and to which the SDK answers
  with a response (a string or an object, not \<open>null\<close>), the call returns a ChatResponse with
  a single choice whose message content is the content by priority. In particular a
  response whose \<open>.text\<close> is \<open>ok\<close> gives the message content \<open>ok\<close>.
\<close>

theorem flowise_content_priority:
  assumes "\<not> stream chatRequest"
    and "snd (sendFlowiseRequest pf env apiUrl apiKey chatRequest) = [Prediction request]"
    and "createPrediction pf request = Inr response"
    and "response \<noteq> JUndefined" "response \<noteq> JNull"
  shows "\<exists>r c. fst (sendFlowiseRequest pf env apiUrl apiKey chatRequest) = Inr (ChatResponse r)
           \<and> at_path r [js ''choices''] = JArray [c]
           \<and> at_path c [js ''message'', js ''content''] = content_by_priority pf response"
proof -
  note s = flowise_sent[OF assms(2)]
  have u: "apiUrl \<noteq> []" and c: "env_or env ''VITE_FLOWISE_CHATFLOW_ID'' [] \<noteq> []"
    and n: "filter (\<lambda>msg. role msg = User) (messages chatRequest) \<noteq> []"
    using s by simp_all
  have r: "flowisePrediction apiUrl apiKey (env_or env ''VITE_FLOWISE_CHATFLOW_ID'' [])
             chatRequest (last (filter (\<lambda>msg. role msg = User) (messages chatRequest))) = request"
    using s by simp
  have "fst (sendFlowiseRequest pf env apiUrl apiKey chatRequest) =
          Inr (ChatResponse (assistant_response (JString (generateId pf))
                 (content_by_priority pf response)))"
    unfolding flowise_call[OF u c n] r
    using assms(1,3) by (simp add: Let_def flowiseContent_priority[OF assms(4,5)])
  then show ?thesis
    using assistant_response_choice choice_message_content by blast
qed

theorem flowise_content_priority_witness:
  "\<forall>ident. \<exists>r c.
     fst (sendFlowiseRequest
            \<lparr>fetch = (\<lambda>r. Inl []), createPrediction = (\<lambda>p. Inr (JObject [(js ''text'', JString (js ''ok''))])),
             createPredictionStream = (\<lambda>p. ([], None)), JSON_stringify = (\<lambda>v. []),
             generateId = ident\<rparr>
            (\<lambda>x. if x = ''VITE_FLOWISE_CHATFLOW_ID'' then Some (js ''flow'') else None)
            (js ''http://localhost:3000/api/v1/prediction'') []
            \<lparr>messages = [\<lparr>role = User, content = js ''q''\<rparr>],
             model = js ''m'', temperature = 0, stream = False\<rparr>) = Inr (ChatResponse r)
     \<and> at_path r [js ''choices''] = JArray [c]
     \<and> at_path c [js ''message'', js ''content''] = JString (js ''ok'')"
proof (intro allI)
  fix ident
  let ?pf = "\<lparr>fetch = (\<lambda>r. Inl []), createPrediction = (\<lambda>p. Inr (JObject [(js ''text'', JString (js ''ok''))])),
             createPredictionStream = (\<lambda>p. ([], None)), JSON_stringify = (\<lambda>v. []),
             generateId = ident\<rparr>"
  let ?env = "\<lambda>x. if x = ''VITE_FLOWISE_CHATFLOW_ID'' then Some (js ''flow'') else None"
  let ?url = "js ''http://localhost:3000/api/v1/prediction''"
  let ?r = "\<lparr>messages = [\<lparr>role = User, content = js ''q''\<rparr>],
             model = js ''m'', temperature = 0, stream = False\<rparr>"
  let ?resp = "JObject [(js ''text'', JString (js ''ok''))]"
  have u: "?url \<noteq> []" by (simp add: js_def)
  have c: "env_or ?env ''VITE_FLOWISE_CHATFLOW_ID'' [] \<noteq> []" by (simp add: env_or_def js_def)
  have n: "filter (\<lambda>msg. role msg = User) (messages ?r) \<noteq> []" by simp
  obtain request where s: "snd (sendFlowiseRequest ?pf ?env ?url [] ?r) = [Prediction request]"
    unfolding flowise_call[OF u c n] by (simp add: Let_def flowiseContent_def)
  have p: "content_by_priority ?pf ?resp = JString (js ''ok'')"
    by (simp add: content_by_priority_def at_path_def js_get_opt_def own_property_def js_def)
  have "\<exists>r c. fst (sendFlowiseRequest ?pf ?env ?url [] ?r) = Inr (ChatResponse r)
           \<and> at_path r [js ''choices''] = JArray [c]
           \<and> at_path c [js ''message'', js ''content''] = content_by_priority ?pf ?resp"
    by (rule flowise_content_priority[OF _ s]) simp_all
  then show "\<exists>r c. fst (sendFlowiseRequest ?pf ?env ?url [] ?r) = Inr (ChatResponse r)
     \<and> at_path r [js ''choices''] = JArray [c]
     \<and> at_path c [js ''message'', js ''content''] = JString (js ''ok'')"
    unfolding p .
qed

end
